theory Spec2Isabelle
  imports Main "HOL-Library.AList" "HOL-Library.Multiset" "HOL-Library.Sublist" "HOL-Library.Word"
begin

section \<open>The storage directory\<close>

text \<open>
  Every handler of \<^verbatim>\<open>fuck.py\<close> except \<^verbatim>\<open>serve_video\<close> touches only names directly
  inside \<^verbatim>\<open>VIDEO_DIR\<close>: Flask's default converter \<^verbatim>\<open><session_id>\<close> accepts a
  non-empty string without \<^verbatim>\<open>/\<close>, and \<^verbatim>\<open>_session_path\<close> joins the directory with
  \<^verbatim>\<open>session_id + ext\<close>. The directory is therefore kept as its entries (\<open>files\<close>), in
  the order in which a directory scan returns them; an entry is a regular file with its
  bytes and its modification time. The modification time is counted in microseconds
  since the epoch, the resolution kept by \<^verbatim>\<open>datetime.utcfromtimestamp\<close>.
  A path given to these handlers is written relative to \<^verbatim>\<open>VIDEO_DIR\<close>, so it is its
  own \<^verbatim>\<open>os.path.basename\<close>.

  \<^verbatim>\<open>serve_video\<close> joins \<^verbatim>\<open>VIDEO_DIR\<close> with an arbitrary relative path, which the operating
  system resolves from the root. The rest of the file system is kept as \<open>surroundings\<close>:
  for each directory from the parent of \<^verbatim>\<open>VIDEO_DIR\<close> up to the root, the name of the
  child on the way down to \<^verbatim>\<open>VIDEO_DIR\<close> and the other entries of that directory.
\<close>

type_synonym byte = "8 word"
type_synonym bstring = "byte list"

record artifact =
  content :: bstring
  mtime :: nat

type_synonym directory = "(string \<times> artifact) list"

datatype node =
    File artifact
  | Dir "(string \<times> node) list"

text \<open>
  The journal records, in order, every call that opens a file for writing, renames a
  file or lets the transcoder write its output. It is what the claims about "reopened
  for append" and "renamed exactly once" speak of.
\<close>

datatype fs_event =
    Open_append string
  | Open_write string
  | Rename string string
  | Ffmpeg_output string

record world =
  files :: directory
  journal :: "fs_event list"
  surroundings :: "(string \<times> (string \<times> node) list) list"

text \<open>\<^verbatim>\<open>os.path.exists(p)\<close>\<close>

definition path_exists :: "world \<Rightarrow> string \<Rightarrow> bool" where
  "path_exists w p = (map_of (files w) p \<noteq> None)"

text \<open>
  \<^verbatim>\<open>with open(p, "ab") as f: f.write(body)\<close> at time \<open>t\<close>: the file is created when it is
  absent (a new entry goes to the end of the scan order); writing no byte to an existing
  file leaves its modification time alone.
\<close>

definition open_ab_write :: "nat \<Rightarrow> string \<Rightarrow> bstring \<Rightarrow> world \<Rightarrow> world" where
  "open_ab_write t p body w =
     w\<lparr>files :=
          (case map_of (files w) p of
             None \<Rightarrow> AList.update p \<lparr>content = body, mtime = t\<rparr> (files w)
           | Some f \<Rightarrow>
               AList.update p
                 \<lparr>content = content f @ body, mtime = (if body = [] then mtime f else t)\<rparr>
                 (files w)),
        journal := journal w @ [Open_append p]\<rparr>"

text \<open>\<^verbatim>\<open>with open(p, "wb") as f: f.write(body)\<close> at time \<open>t\<close>: truncate, then write.\<close>

definition open_wb_write :: "nat \<Rightarrow> string \<Rightarrow> bstring \<Rightarrow> world \<Rightarrow> world" where
  "open_wb_write t p body w =
     w\<lparr>files := AList.update p \<lparr>content = body, mtime = t\<rparr> (files w),
        journal := journal w @ [Open_write p]\<rparr>"

text \<open>
  \<^verbatim>\<open>shutil.move(src, dst)\<close> inside one directory is a rename: the entry keeps its bytes
  and its modification time. It raises when \<open>src\<close> is missing (\<open>None\<close>).
\<close>

definition shutil_move :: "string \<Rightarrow> string \<Rightarrow> world \<Rightarrow> world option" where
  "shutil_move src dst w =
     (case map_of (files w) src of
        None \<Rightarrow> None
      | Some f \<Rightarrow>
          Some (w\<lparr>files := AList.update dst f (AList.delete src (files w)),
                  journal := journal w @ [Rename src dst]\<rparr>))"

text \<open>\<^verbatim>\<open>os.path.getsize(p)\<close>; raises (\<open>None\<close>) when the file is missing.\<close>

definition getsize :: "world \<Rightarrow> string \<Rightarrow> nat option" where
  "getsize w p = map_option (\<lambda>f. length (content f)) (map_of (files w) p)"

section \<open>Strings, names and globbing\<close>

text \<open>\<^verbatim>\<open>str(n)\<close> for a non-negative integer.\<close>

definition digit_char :: "nat \<Rightarrow> char" where
  "digit_char d = ''0123456789'' ! d"

fun str_nat :: "nat \<Rightarrow> string" where
  "str_nat n = (if n < 10 then [digit_char n] else str_nat (n div 10) @ [digit_char (n mod 10)])"

declare str_nat.simps [simp del]

text \<open>\<^verbatim>\<open>s.endswith(suf)\<close>\<close>

definition endswith :: "string \<Rightarrow> string \<Rightarrow> bool" where
  "endswith s suf = (length suf \<le> length s \<and> drop (length s - length suf) s = suf)"

definition PART_EXT :: string where
  "PART_EXT = ''.partial''"

text \<open>\<^verbatim>\<open>_session_path(session_id, ext)\<close>, relative to \<^verbatim>\<open>VIDEO_DIR\<close>.\<close>

definition session_path :: "string \<Rightarrow> string \<Rightarrow> string" where
  "session_path session_id ext = session_id @ ext"

text \<open>
  \<^verbatim>\<open>os.path.splitext(p)[0]\<close> on a name without a directory separator: the name is cut
  at its last dot, unless only dots stand before that dot (leading dots belong to the
  root), or there is no dot.
\<close>

fun rfind_dot :: "string \<Rightarrow> nat option" where
  "rfind_dot [] = None"
| "rfind_dot (c # cs) =
     (case rfind_dot cs of
        Some i \<Rightarrow> Some (Suc i)
      | None \<Rightarrow> if c = CHR ''.'' then Some 0 else None)"

definition splitext_root :: "string \<Rightarrow> string" where
  "splitext_root p =
     (case rfind_dot p of
        None \<Rightarrow> p
      | Some dotIndex \<Rightarrow>
          if dropWhile (\<lambda>c. c = CHR ''.'') (take dotIndex p) \<noteq> [] then take dotIndex p else p)"

text \<open>\<^verbatim>\<open>os.path.splitext(webm_path)[0] + ".mp4"\<close>\<close>

definition mp4_of :: "string \<Rightarrow> string" where
  "mp4_of webm_path = splitext_root webm_path @ ''.mp4''"

text \<open>
  \<^verbatim>\<open>glob.glob(os.path.join(VIDEO_DIR, "*" + ext))\<close>: the entries, in scan order, whose
  name ends with \<open>ext\<close>; a pattern that starts with \<^verbatim>\<open>*\<close> skips hidden names (those that
  start with a dot). Each match is returned with the entry itself, which is what
  \<^verbatim>\<open>os.stat\<close> and \<^verbatim>\<open>os.path.getmtime\<close> read for it.
\<close>

definition ishidden :: "string \<Rightarrow> bool" where
  "ishidden n = (take 1 n = ''.'')"

definition glob_star :: "world \<Rightarrow> string \<Rightarrow> (string \<times> artifact) list" where
  "glob_star w ext = filter (\<lambda>(n, f). \<not> ishidden n \<and> endswith n ext) (files w)"

text \<open>
  \<^verbatim>\<open>sorted(xs, key=key, reverse=True)\<close> and \<^verbatim>\<open>xs.sort(key=key, reverse=True)\<close>: CPython
  reverses the list, sorts it stably in ascending order and reverses the result, so that
  elements with equal keys keep their original order.
\<close>

definition py_sorted_reverse :: "('a \<Rightarrow> nat) \<Rightarrow> 'a list \<Rightarrow> 'a list" where
  "py_sorted_reverse key xs = rev (sort_key key (rev xs))"

section \<open>The environment of a request\<close>

text \<open>
  What a request reads from outside the program: the clock (\<open>now\<close>, microseconds since
  the epoch, one reading per request, a time that \<^verbatim>\<open>datetime\<close> represents) and the
  transcoder. \<open>ffmpeg_version_ok\<close> tells
  whether \<^verbatim>\<open>ffmpeg -version\<close> runs and exits with 0. \<open>ffmpeg_run\<close> is the transcoding
  run on the bytes of the input file (\<open>None\<close> when it is missing): how the process
  ended, and the bytes it left at the output path (\<open>None\<close> when it wrote nothing there).
\<close>

datatype proc_exit = Exit_zero | Exit_nonzero | Raised

record env =
  now :: nat
  ffmpeg_version_ok :: bool
  ffmpeg_run :: "bstring option \<Rightarrow> proc_exit \<times> bstring option"

text \<open>
  A timestamp rendered with \<^verbatim>\<open>strftime("%Y-%m-%dT%H:%M:%SZ")\<close> is represented by the
  number of whole seconds it shows. The rendering has a fixed width with the most
  significant field first (four-digit years), so two such strings compare as their
  numbers of seconds do.
\<close>

definition seconds :: "nat \<Rightarrow> nat" where
  "seconds t = t div 1000000"

definition now_iso :: "env \<Rightarrow> nat" where
  "now_iso e = seconds (now e)"

section \<open>Responses\<close>

datatype json =
    JNull
  | JBool bool
  | JStr string
  | JNum nat
  | JStamp nat
  | JArr "json list"
  | JObj "(string \<times> json) list"

datatype payload =
    Json json
  | Text string
  | File_sent string bstring
  | Page

record response =
  code :: nat
  payload :: payload
  headers :: "(string \<times> string) list"

definition jsonify :: "nat \<Rightarrow> (string \<times> json) list \<Rightarrow> response" where
  "jsonify c obj = \<lparr>code = c, payload = Json (JObj obj), headers = []\<rparr>"

text \<open>An exception that no handler catches: Flask answers 500.\<close>

definition server_error :: response where
  "server_error = \<lparr>code = 500, payload = Text ''Internal Server Error'', headers = []\<rparr>"

text \<open>\<^verbatim>\<open>send_file(path, mimetype=...)\<close>; opening a missing file raises.\<close>

definition send_file :: "world \<Rightarrow> string \<Rightarrow> (string \<times> string) list \<Rightarrow> response" where
  "send_file w p hs =
     (case map_of (files w) p of
        None \<Rightarrow> server_error
      | Some f \<Rightarrow> \<lparr>code = 200, payload = File_sent p (content f), headers = hs\<rparr>)"

section \<open>The handlers of fuck.py\<close>

text \<open>
  \<^verbatim>\<open>POST /upload/<session_id>\<close>. (\<^verbatim>\<open>os.makedirs(VIDEO_DIR, exist_ok=True)\<close> does
  nothing: the directory exists.)
\<close>

definition upload_chunk :: "env \<Rightarrow> string \<Rightarrow> bstring \<Rightarrow> world \<Rightarrow> world \<times> response" where
  "upload_chunk e session_id body w =
     (let partial_path = session_path session_id (''.webm'' @ PART_EXT);
          w1 = open_ab_write (now e) partial_path body w
      in case getsize w1 partial_path of
           None \<Rightarrow> (w1, server_error)
         | Some n \<Rightarrow>
             (w1, \<lparr>code = 200, payload = Text ''OK'',
                   headers = [(''X-Received-Bytes'', str_nat n),
                              (''Access-Control-Expose-Headers'', ''X-Received-Bytes'')]\<rparr>))"

definition ffmpeg_available :: "env \<Rightarrow> bool" where
  "ffmpeg_available e = ffmpeg_version_ok e"

text \<open>
  \<^verbatim>\<open>_finalize_to_mp4(webm_path)\<close>: the transcoder runs with \<^verbatim>\<open>-y -i webm_path ... mp4_path\<close>;
  whatever it leaves at \<open>mp4_path\<close> stays there, also when it fails. Every failure
  (\<^verbatim>\<open>except Exception\<close>) gives \<open>None\<close>.
\<close>

definition finalize_to_mp4 :: "env \<Rightarrow> string \<Rightarrow> world \<Rightarrow> world \<times> string option" where
  "finalize_to_mp4 e webm_path w =
     (let mp4_path = mp4_of webm_path in
      if \<not> ffmpeg_available e then (w, None)
      else
        (case ffmpeg_run e (map_option content (map_of (files w) webm_path)) of
           (ex, out) \<Rightarrow>
             (let w1 = (case out of
                          None \<Rightarrow> w
                        | Some bs \<Rightarrow>
                            w\<lparr>files := AList.update mp4_path \<lparr>content = bs, mtime = now e\<rparr> (files w),
                               journal := journal w @ [Ffmpeg_output mp4_path]\<rparr>)
              in case ex of
                   Exit_zero \<Rightarrow> (w1, if path_exists w1 mp4_path then Some mp4_path else None)
                 | Exit_nonzero \<Rightarrow> (w1, None)
                 | Raised \<Rightarrow> (w1, None))))"

text \<open>\<^verbatim>\<open>POST /finalize/<session_id>\<close>\<close>

definition finalize :: "env \<Rightarrow> string \<Rightarrow> world \<Rightarrow> world \<times> response" where
  "finalize e session_id w =
     (let partial_path = session_path session_id (''.webm'' @ PART_EXT);
          webm_path = session_path session_id ''.webm''
      in
      if \<not> path_exists w partial_path \<and> \<not> path_exists w webm_path then
        (w, jsonify 404 [(''ok'', JBool False), (''error'', JStr ''no recording'')])
      else if path_exists w webm_path then
        (let out = [(''ok'', JBool True), (''webm'', JStr webm_path)];
             mp4_path = mp4_of webm_path
         in (w, jsonify 200
                  (if path_exists w mp4_path then out @ [(''mp4'', JStr mp4_path)] else out)))
      else
        (case (if path_exists w partial_path then shutil_move partial_path webm_path w
               else Some w) of
           None \<Rightarrow> (w, server_error)
         | Some w1 \<Rightarrow>
             (case finalize_to_mp4 e webm_path w1 of
                (w2, mp4_path) \<Rightarrow>
                  (w2, jsonify 200
                         [(''ok'', JBool True),
                          (''webm'', if path_exists w2 webm_path then JStr webm_path else JNull),
                          (''mp4'',
                             case mp4_path of
                               None \<Rightarrow> JNull
                             | Some p \<Rightarrow> if path_exists w2 p then JStr p else JNull),
                          (''at'', JStamp (now_iso e))]))))"

text \<open>\<^verbatim>\<open>POST /snapshot/<session_id>\<close>\<close>

definition snapshot :: "env \<Rightarrow> string \<Rightarrow> bstring \<Rightarrow> world \<Rightarrow> world \<times> response" where
  "snapshot e session_id body w =
     (let snap_path = session_path session_id ''.jpg'';
          w1 = open_wb_write (now e) snap_path body w
      in (w1, jsonify 200
                [(''ok'', JBool True), (''at'', JStamp (now_iso e)), (''file'', JStr snap_path)]))"

text \<open>\<^verbatim>\<open>GET /snapshot/latest\<close>\<close>

definition snapshot_latest :: "world \<Rightarrow> response" where
  "snapshot_latest w =
     (case py_sorted_reverse (\<lambda>(n, f). mtime f) (glob_star w ''.jpg'') of
        [] \<Rightarrow> jsonify 404 [(''ok'', JBool False), (''error'', JStr ''no snapshot'')]
      | (n, f) # _ \<Rightarrow> send_file w n [(''Content-Type'', ''image/jpeg'')])"

text \<open>
  \<^verbatim>\<open>datetime.utcfromtimestamp(t).strftime("%Y-%m-%dT%H:%M:%SZ")\<close>: the whole seconds of
  \<open>t\<close>; \<^verbatim>\<open>utcfromtimestamp\<close> raises (\<open>None\<close>) for a time after the year 9999, whose last
  second is 253402300799.
\<close>

definition utc_strftime :: "nat \<Rightarrow> nat option" where
  "utc_strftime t = (if seconds t \<le> 253402300799 then Some (seconds t) else None)"

text \<open>
  \<^verbatim>\<open>_list_videos()\<close>. The dictionary built for each file is a record; its key
  \<^verbatim>\<open>"type"\<close> is the field \<open>kind\<close>. Rendering the modification time of a file may raise,
  which ends the whole call (\<open>None\<close>). The sort key is the rendered \<^verbatim>\<open>"modified"\<close>
  string, that is, the modification time cut to whole seconds.
\<close>

record video =
  filename :: string
  bytes :: nat
  modified :: nat
  url :: string
  kind :: string

definition video_of :: "string \<Rightarrow> string \<times> artifact \<Rightarrow> video option" where
  "video_of k nf =
     map_option
       (\<lambda>m. \<lparr>filename = fst nf, bytes = length (content (snd nf)), modified = m,
             url = ''/video/'' @ fst nf, kind = k\<rparr>)
       (utc_strftime (mtime (snd nf)))"

definition list_videos :: "world \<Rightarrow> video list option" where
  "list_videos w =
     map_option (py_sorted_reverse modified)
       (those (concat (map (\<lambda>(ext, k). map (video_of k) (glob_star w ext))
                         [(''.mp4'', ''mp4''), (''.webm'', ''webm'')])))"

definition video_json :: "video \<Rightarrow> json" where
  "video_json v =
     JObj [(''filename'', JStr (filename v)), (''bytes'', JNum (bytes v)),
           (''modified'', JStamp (modified v)), (''url'', JStr (url v)),
           (''type'', JStr (kind v))]"

text \<open>\<^verbatim>\<open>GET /status\<close>; an exception in \<^verbatim>\<open>_list_videos\<close> is not caught.\<close>

definition status :: "env \<Rightarrow> world \<Rightarrow> response" where
  "status e w =
     (case list_videos w of
        None \<Rightarrow> server_error
      | Some vids \<Rightarrow>
          jsonify 200
            [(''ok'', JBool True), (''videos'', JArr (map video_json vids)),
             (''server_time'', JStamp (now_iso e))])"

text \<open>\<^verbatim>\<open>GET /latest\<close>; an exception in \<^verbatim>\<open>_list_videos\<close> is not caught.\<close>

definition latest :: "world \<Rightarrow> response" where
  "latest w =
     (case list_videos w of
        None \<Rightarrow> server_error
      | Some [] \<Rightarrow> jsonify 404 [(''ok'', JBool False), (''error'', JStr ''no videos yet'')]
      | Some (v0 # vs) \<Rightarrow>
          (let preferred =
                 (case find (\<lambda>v. endswith (filename v) ''.mp4'') (v0 # vs) of
                    Some v \<Rightarrow> v
                  | None \<Rightarrow> v0)
           in send_file w (filename preferred) []))"

text \<open>\<^verbatim>\<open>GET /health\<close>\<close>

definition health :: "env \<Rightarrow> response" where
  "health e = jsonify 200 [(''ok'', JBool True), (''time'', JStamp (now_iso e))]"

section \<open>Paths that leave the storage directory\<close>

text \<open>\<^verbatim>\<open>p.split("/")\<close> and \<^verbatim>\<open>"/".join(xs)\<close>\<close>

fun split_slash :: "string \<Rightarrow> string list" where
  "split_slash [] = [[]]"
| "split_slash (c # cs) =
     (if c = CHR ''/'' then [] # split_slash cs
      else (case split_slash cs of [] \<Rightarrow> [[c]] | x # xs \<Rightarrow> (c # x) # xs))"

fun join_slash :: "string list \<Rightarrow> string" where
  "join_slash [] = []"
| "join_slash [x] = x"
| "join_slash (x # y # ys) = x @ ''/'' @ join_slash (y # ys)"

text \<open>The file system as a tree, rebuilt from the storage directory and its surroundings.\<close>

definition video_dir_node :: "world \<Rightarrow> node" where
  "video_dir_node w = Dir (map (\<lambda>(n, a). (n, File a)) (files w))"

fun rebuild :: "node \<Rightarrow> (string \<times> (string \<times> node) list) list \<Rightarrow> node" where
  "rebuild n [] = n"
| "rebuild n ((name, siblings) # outer) = rebuild (Dir ((name, n) # siblings)) outer"

definition root_of :: "world \<Rightarrow> node" where
  "root_of w = rebuild (video_dir_node w) (surroundings w)"

text \<open>\<^verbatim>\<open>VIDEO_DIR\<close>, an absolute path, as its components from the root.\<close>

definition VIDEO_DIR :: "world \<Rightarrow> string list" where
  "VIDEO_DIR w = rev (map fst (surroundings w))"

text \<open>
  \<^verbatim>\<open>os.path.join(VIDEO_DIR, filename)\<close>, as components: an absolute \<open>filename\<close> replaces
  the directory.
\<close>

definition os_path_join :: "string list \<Rightarrow> string \<Rightarrow> string list" where
  "os_path_join dir fname =
     (if take 1 fname = ''/'' then split_slash fname else dir @ split_slash fname)"

text \<open>
  Path resolution by the operating system, from node \<open>n\<close> whose ancestors are \<open>up\<close>
  (the parent first): an empty component and \<^verbatim>\<open>.\<close> stay, \<^verbatim>\<open>..\<close> goes to the parent
  (the root is its own parent), a name goes to that entry. Nothing can be resolved
  below a regular file or through a missing entry (\<open>None\<close>).
\<close>

fun walk :: "node \<Rightarrow> node list \<Rightarrow> string list \<Rightarrow> node option" where
  "walk n up [] = Some n"
| "walk n up (c # cs) =
     (case n of
        File f \<Rightarrow> None
      | Dir es \<Rightarrow>
          if c = [] \<or> c = ''.'' then walk n up cs
          else if c = ''..'' then (case up of [] \<Rightarrow> walk n [] cs | m # ms \<Rightarrow> walk m ms cs)
          else (case map_of es c of None \<Rightarrow> None | Some m \<Rightarrow> walk m (n # up) cs))"

text \<open>
  \<^verbatim>\<open>GET /video/<path:filename>\<close>. \<^verbatim>\<open>os.path.exists\<close> holds for a directory as well;
  \<^verbatim>\<open>send_file\<close> then fails to open it, and the exception is not caught.
\<close>

definition serve_video :: "world \<Rightarrow> string \<Rightarrow> response" where
  "serve_video w fname =
     (let fp = os_path_join (VIDEO_DIR w) fname in
      case walk (root_of w) [] fp of
        None \<Rightarrow> jsonify 404 [(''ok'', JBool False), (''error'', JStr ''not found'')]
      | Some (Dir es) \<Rightarrow> server_error
      | Some (File f) \<Rightarrow>
          \<lparr>code = 200, payload = File_sent fname (content f),
           headers = [(''Access-Control-Allow-Origin'', ''*''), (''Cache-Control'', ''no-store'')]\<rparr>)"

section \<open>The routes\<close>

text \<open>
  The route table of \<^verbatim>\<open>fuck.py\<close>, on the segments of the request path. A path that
  matches a rule for another method only is answered 405, a path that matches no rule
  404; the static rule \<^verbatim>\<open>/snapshot/latest\<close> (GET) and the rule
  \<^verbatim>\<open>/snapshot/<session_id>\<close> (POST) share their paths.
\<close>

datatype http_method = GET | POST

datatype endpoint =
    Index
  | Upload_chunk string
  | Finalize string
  | Snapshot string
  | Snapshot_latest
  | Status
  | Latest
  | Serve_video string
  | Health

datatype routed = Found endpoint | Not_found | Method_not_allowed

definition only :: "http_method \<Rightarrow> http_method \<Rightarrow> endpoint \<Rightarrow> routed" where
  "only allowed m ep = (if m = allowed then Found ep else Method_not_allowed)"

definition route :: "http_method \<Rightarrow> string list \<Rightarrow> routed" where
  "route m segs =
     (case segs of
        [] \<Rightarrow> only GET m Index
      | [a] \<Rightarrow>
          if a = ''status'' then only GET m Status
          else if a = ''latest'' then only GET m Latest
          else if a = ''health'' then only GET m Health
          else Not_found
      | a # s # rest \<Rightarrow>
          if a = ''video'' then only GET m (Serve_video (join_slash (s # rest)))
          else if rest \<noteq> [] then Not_found
          else if a = ''upload'' then only POST m (Upload_chunk s)
          else if a = ''finalize'' then only POST m (Finalize s)
          else if a = ''snapshot'' then
            (if m = POST then Found (Snapshot s)
             else if s = ''latest'' then Found Snapshot_latest
             else Method_not_allowed)
          else Not_found)"

record request =
  verb :: http_method
  segments :: "string list"
  data :: bstring

definition handle :: "env \<Rightarrow> endpoint \<Rightarrow> bstring \<Rightarrow> world \<Rightarrow> world \<times> response" where
  "handle e ep body w =
     (case ep of
        Index \<Rightarrow> (w, \<lparr>code = 200, payload = Page, headers = []\<rparr>)
      | Upload_chunk session_id \<Rightarrow> upload_chunk e session_id body w
      | Finalize session_id \<Rightarrow> finalize e session_id w
      | Snapshot session_id \<Rightarrow> snapshot e session_id body w
      | Snapshot_latest \<Rightarrow> (w, snapshot_latest w)
      | Status \<Rightarrow> (w, status e w)
      | Latest \<Rightarrow> (w, latest w)
      | Serve_video fname \<Rightarrow> (w, serve_video w fname)
      | Health \<Rightarrow> (w, health e))"

definition app :: "env \<Rightarrow> request \<Rightarrow> world \<Rightarrow> world \<times> response" where
  "app e rq w =
     (case route (verb rq) (segments rq) of
        Found ep \<Rightarrow> handle e ep (data rq) w
      | Not_found \<Rightarrow> (w, \<lparr>code = 404, payload = Text ''Not Found'', headers = []\<rparr>)
      | Method_not_allowed \<Rightarrow>
          (w, \<lparr>code = 405, payload = Text ''Method Not Allowed'', headers = []\<rparr>))"

text \<open>
  A run: requests served one after the other, each with the environment it meets.
\<close>

fun run :: "(env \<times> request) list \<Rightarrow> world \<Rightarrow> world" where
  "run [] w = w"
| "run ((e, rq) # rest) w = run rest (fst (app e rq w))"

section \<open>The upload handler of app.py\<close>

text \<open>
  \<^verbatim>\<open>app.py\<close> is the older variant of the service. Its \<^verbatim>\<open>POST /upload/<session_id>\<close> appends
  to \<^verbatim>\<open>_session_path(session_id)\<close>, the \<^verbatim>\<open>.webm\<close> file itself, and returns the length
  of the chunk.
\<close>

definition app_py_upload_chunk :: "env \<Rightarrow> string \<Rightarrow> bstring \<Rightarrow> world \<Rightarrow> world \<times> response" where
  "app_py_upload_chunk e session_id chunk w =
     (let path = session_path session_id ''.webm'';
          w1 = open_ab_write (now e) path chunk w
      in (w1, jsonify 200 [(''ok'', JBool True), (''size'', JNum (length chunk))]))"

section \<open>Notions used to state the properties\<close>

text \<open>The bytes that a path holds; none when no file is there.\<close>

definition held :: "world \<Rightarrow> string \<Rightarrow> bstring" where
  "held w p = (case map_of (files w) p of None \<Rightarrow> [] | Some f \<Rightarrow> content f)"

text \<open>A field of the JSON object that a response carries.\<close>

definition field :: "response \<Rightarrow> string \<Rightarrow> json option" where
  "field r k = (case payload r of Json (JObj kvs) \<Rightarrow> map_of kvs k | _ \<Rightarrow> None)"

text \<open>An environment at time \<open>t\<close> on a host without the transcoder.\<close>

definition quiet_env :: "nat \<Rightarrow> env" where
  "quiet_env t = \<lparr>now = t, ffmpeg_version_ok = False, ffmpeg_run = (\<lambda>i. (Raised, None))\<rparr>"

text \<open>A storage directory that holds one partial video, of session \<^verbatim>\<open>s\<close>.\<close>

definition one_partial :: world where
  "one_partial =
     \<lparr>files = [(''s.webm.partial'', \<lparr>content = [1, 2], mtime = 1000000\<rparr>)], journal = [],
      surroundings = []\<rparr>"

text \<open>A storage directory that holds one finalized video, of session \<^verbatim>\<open>s\<close>.\<close>

definition one_final :: world where
  "one_final =
     \<lparr>files = [(''s.webm'', \<lparr>content = [1, 2], mtime = 1000000\<rparr>)], journal = [],
      surroundings = []\<rparr>"

text \<open>
  An environment at time \<open>t\<close> on a host whose transcoder starts, leaves one byte of
  output and exits with a non-zero status.
\<close>

definition failing_env :: "nat \<Rightarrow> env" where
  "failing_env t =
     \<lparr>now = t, ffmpeg_version_ok = True, ffmpeg_run = (\<lambda>i. (Exit_nonzero, Some [0]))\<rparr>"

text \<open>The requests of a recording client: \<^verbatim>\<open>POST /upload/<session_id>\<close> and \<^verbatim>\<open>POST /finalize/<session_id>\<close>.\<close>

definition upload_rq :: "string \<Rightarrow> bstring \<Rightarrow> request" where
  "upload_rq session_id chunk = \<lparr>verb = POST, segments = [''upload'', session_id], data = chunk\<rparr>"

definition finalize_rq :: "string \<Rightarrow> request" where
  "finalize_rq session_id = \<lparr>verb = POST, segments = [''finalize'', session_id], data = []\<rparr>"

text \<open>
  The chunks \<open>ups\<close> of one session, each with the environment its upload meets, as
  requests in upload order.
\<close>

definition upload_requests :: "string \<Rightarrow> (env \<times> bstring) list \<Rightarrow> (env \<times> request) list" where
  "upload_requests session_id ups = map (\<lambda>(e, c). (e, upload_rq session_id c)) ups"

text \<open>The modification time of the file at a path (0 when no file is there).\<close>

definition file_mtime :: "world \<Rightarrow> string \<Rightarrow> nat" where
  "file_mtime w p = (case map_of (files w) p of None \<Rightarrow> 0 | Some f \<Rightarrow> mtime f)"

text \<open>
  C6 in the words of the specification: the listing is in descending order of the
  modification times of the listed files.
\<close>

definition listing_by_mtime :: "world \<Rightarrow> bool" where
  "listing_by_mtime w =
     (case list_videos w of
        None \<Rightarrow> False
      | Some vids \<Rightarrow>
          sorted_wrt (\<lambda>a b. file_mtime w (filename b) \<le> file_mtime w (filename a)) vids)"

text \<open>
  The videos of the storage directory, as the amended C5 and C6 speak of them: the
  entries whose name does not start with a dot and ends with \<^verbatim>\<open>.mp4\<close>, in scan order,
  then those whose name ends with \<^verbatim>\<open>.webm\<close>, in scan order, each with its listing
  fields (\<open>modified\<close> is the modification time in whole seconds).
\<close>

definition entry :: "string \<Rightarrow> string \<times> artifact \<Rightarrow> video" where
  "entry k nf =
     \<lparr>filename = fst nf, bytes = length (content (snd nf)), modified = mtime (snd nf) div 1000000,
      url = ''/video/'' @ fst nf, kind = k\<rparr>"

definition video_entries :: "world \<Rightarrow> video list" where
  "video_entries w =
     map (entry ''mp4'') (filter (\<lambda>(n, f). \<not> prefix ''.'' n \<and> suffix ''.mp4'' n) (files w))
     @ map (entry ''webm'') (filter (\<lambda>(n, f). \<not> prefix ''.'' n \<and> suffix ''.webm'' n) (files w))"

text \<open>
  The modification times of the videos lie within the range of \<^verbatim>\<open>datetime\<close>, which
  ends with the year 9999.
\<close>

definition representable :: "world \<Rightarrow> bool" where
  "representable w =
     (\<forall>(n, f)\<in>set (files w).
        \<not> prefix ''.'' n \<and> (suffix ''.mp4'' n \<or> suffix ''.webm'' n)
          \<longrightarrow> mtime f div 1000000 \<le> 253402300799)"

text \<open>
  \<open>vids\<close> is the listing of the directory: in descending order of \<open>modified\<close>, and for
  every second the videos modified in that second are exactly those of the directory,
  in the order in which they stand there (all \<^verbatim>\<open>.mp4\<close> before all \<^verbatim>\<open>.webm\<close>, each kind
  in scan order).
\<close>

definition is_listing :: "world \<Rightarrow> video list \<Rightarrow> bool" where
  "is_listing w vids =
     (sorted_wrt (\<lambda>a b. modified b \<le> modified a) vids
      \<and> (\<forall>k. filter (\<lambda>v. modified v = k) vids = filter (\<lambda>v. modified v = k) (video_entries w)))"

text \<open>The response that streams the file of a listed video.\<close>

definition sent :: "world \<Rightarrow> video \<Rightarrow> response" where
  "sent w v = \<lparr>code = 200, payload = File_sent (filename v) (held w (filename v)), headers = []\<rparr>"

text \<open>
  Two videos modified within the same second, the raw one later and first in scan
  order; a directory whose newest video, of session \<^verbatim>\<open>new\<close>, has no transcoded
  counterpart while an older session has one; and a video modified in the first second
  of the year 10000.
\<close>

definition same_second :: world where
  "same_second =
     \<lparr>files = [(''b.webm'', \<lparr>content = [2], mtime = 5700000\<rparr>),
               (''a.mp4'', \<lparr>content = [1], mtime = 5200000\<rparr>)],
      journal = [], surroundings = []\<rparr>"

definition older_mp4 :: world where
  "older_mp4 =
     \<lparr>files = [(''new.webm'', \<lparr>content = [3], mtime = 9000000\<rparr>),
               (''old.webm'', \<lparr>content = [1], mtime = 1000000\<rparr>),
               (''old.mp4'', \<lparr>content = [2], mtime = 2000000\<rparr>)],
      journal = [], surroundings = []\<rparr>"

definition far_future :: world where
  "far_future =
     \<lparr>files = [(''a.mp4'', \<lparr>content = [1], mtime = 253402300800000000\<rparr>)],
      journal = [], surroundings = []\<rparr>"

text \<open>
  C5 in the words of the specification: the choice of \<^verbatim>\<open>/latest\<close> is the transcoded
  video of the most recent session (the session of the first listing entry) when both
  its transcoded and its raw video are listed, and the most recently modified video
  otherwise.
\<close>

definition latest_spec :: "world \<Rightarrow> string option" where
  "latest_spec w =
     (case list_videos w of
        None \<Rightarrow> None
      | Some [] \<Rightarrow> None
      | Some (v0 # vs) \<Rightarrow>
          (let session = splitext_root (filename v0) in
           if session @ ''.mp4'' \<in> set (map filename (v0 # vs))
              \<and> session @ ''.webm'' \<in> set (map filename (v0 # vs))
           then Some (session @ ''.mp4'')
           else Some (filename v0)))"




text \<open>\<^verbatim>\<open>POST /snapshot/<session_id>\<close>, a GET request, and the empty storage directory.\<close>

definition snapshot_rq :: "string \<Rightarrow> bstring \<Rightarrow> request" where
  "snapshot_rq session_id img = \<lparr>verb = POST, segments = [''snapshot'', session_id], data = img\<rparr>"

definition get_rq :: "string list \<Rightarrow> request" where
  "get_rq segs = \<lparr>verb = GET, segments = segs, data = []\<rparr>"

definition empty_world :: world where
  "empty_world = \<lparr>files = [], journal = [], surroundings = []\<rparr>"



text \<open>
  A name of a directory entry: not empty, not \<^verbatim>\<open>.\<close> or \<^verbatim>\<open>..\<close>, and without a separator.
\<close>

definition proper :: "string \<Rightarrow> bool" where
  "proper c = (c \<noteq> [] \<and> c \<noteq> ''.'' \<and> c \<noteq> ''..'' \<and> CHR ''/'' \<notin> set c)"

text \<open>
  The ancestors of the storage directory as nodes, the parent first: what path
  resolution has on its way up once it stands in the storage directory.
\<close>

fun parents :: "node \<Rightarrow> (string \<times> (string \<times> node) list) list \<Rightarrow> node list" where
  "parents n [] = []"
| "parents n ((name, siblings) # outer) =
     Dir ((name, n) # siblings) # parents (Dir ((name, n) # siblings)) outer"

text \<open>
  A deployment: the program file \<^verbatim>\<open>fuck.py\<close> in \<^verbatim>\<open>/srv\<close>, beside the storage directory
  \<^verbatim>\<open>/srv/videos\<close>, which holds one video.
\<close>

definition deployed :: world where
  "deployed =
     \<lparr>files = [(''a.webm'', \<lparr>content = [1], mtime = 1000000\<rparr>)], journal = [],
      surroundings =
        [(''videos'', [(''fuck.py'', File \<lparr>content = [35, 33], mtime = 5\<rparr>)]),
         (''srv'', [])]\<rparr>"

section \<open>Properties of the storage primitives\<close>

lemma mp4_of_not_webm: "mp4_of p \<noteq> session_path session_id ''.webm''"
proof
  assume "mp4_of p = session_path session_id ''.webm''"
  then have "last (mp4_of p) = last (session_path session_id ''.webm'')" by simp
  then show False by (simp add: mp4_of_def session_path_def)
qed


lemma partial_not_webm: "session_path a ''.webm.partial'' \<noteq> session_path b ''.webm''"
proof
  assume "session_path a ''.webm.partial'' = session_path b ''.webm''"
  then have "last (session_path a ''.webm.partial'') = last (session_path b ''.webm'')" by simp
  then show False by (simp add: session_path_def)
qed

lemma finalize_to_mp4_other:
  "q \<noteq> mp4_of p \<Longrightarrow> map_of (files (fst (finalize_to_mp4 e p w))) q = map_of (files w) q"
  by (simp add: finalize_to_mp4_def Let_def update_conv' split: prod.splits option.splits proc_exit.splits)

lemma shutil_move_files:
  "shutil_move src dst w = Some w1 \<Longrightarrow>
     map_of (files w1) = ((map_of (files w))(src := None))(dst := map_of (files w) src)"
  by (auto simp: shutil_move_def update_conv' delete_conv' split: option.splits)

section \<open>The chunk sink\<close>

text \<open>
  C7. A chunk upload of a body to a session whose partial file holds some bytes (none
  when the file is absent, in which case it is created) leaves the partial file holding
  these bytes followed by the body, leaves every other file as it was, and answers 200
  with the new total size, the old size plus the size of the body, in the header
  \<^verbatim>\<open>X-Received-Bytes\<close>.
\<close>

theorem upload_chunk_total_size:
  assumes "upload_chunk e session_id body w = (w', r)"
  shows "map_option content (map_of (files w') (session_path session_id ''.webm.partial''))
           = Some (held w (session_path session_id ''.webm.partial'') @ body)
       \<and> (\<forall>q. q \<noteq> session_path session_id ''.webm.partial''
              \<longrightarrow> map_of (files w') q = map_of (files w) q)
       \<and> code r = 200
       \<and> map_of (headers r) ''X-Received-Bytes''
           = Some (str_nat (length (held w (session_path session_id ''.webm.partial''))
                            + length body))"
  using assms
  by (auto simp: upload_chunk_def open_ab_write_def getsize_def held_def PART_EXT_def
      update_conv' Let_def split: option.splits)

theorem upload_chunk_total_size_witness:
  "held one_partial ''s.webm.partial'' = [1, 2]
   \<and> map_option content
        (map_of (files (fst (upload_chunk (quiet_env 2000000) ''s'' [3] one_partial)))
           ''s.webm.partial'')
       = Some [1, 2, 3]
   \<and> map_of (headers (snd (upload_chunk (quiet_env 2000000) ''s'' [3] one_partial)))
         ''X-Received-Bytes''
       = Some ''3''"
  using upload_chunk_total_size [of "quiet_env 2000000" "''s''" "[3]" one_partial
      "fst (upload_chunk (quiet_env 2000000) ''s'' [3] one_partial)"
      "snd (upload_chunk (quiet_env 2000000) ''s'' [3] one_partial)"]
  by (simp add: held_def one_partial_def session_path_def str_nat.simps digit_char_def)

text \<open>
  The variant of \<^verbatim>\<open>app.py\<close> appends as well, to the \<^verbatim>\<open>.webm\<close> file, but reports the size
  of the chunk, not the new total.
\<close>

lemma app_py_upload_chunk_size:
  "held (fst (app_py_upload_chunk e session_id chunk w)) (session_path session_id ''.webm'')
     = held w (session_path session_id ''.webm'') @ chunk
   \<and> field (snd (app_py_upload_chunk e session_id chunk w)) ''size'' = Some (JNum (length chunk))"
  by (auto simp: app_py_upload_chunk_def open_ab_write_def held_def field_def jsonify_def
      update_conv' Let_def split: option.splits)

section \<open>The finalizer\<close>

text \<open>
  C3. When neither the partial video nor the finalized video of a session exists,
  finalize answers 404 with \<^verbatim>\<open>ok\<close> false and leaves the storage directory, and the
  journal of its writes, as they were.
\<close>

theorem finalize_no_recording:
  assumes "\<not> path_exists w (session_path session_id ''.webm.partial'')"
    and "\<not> path_exists w (session_path session_id ''.webm'')"
  shows "finalize e session_id w
           = (w, jsonify 404 [(''ok'', JBool False), (''error'', JStr ''no recording'')])"
  using assms by (simp add: finalize_def PART_EXT_def)

theorem finalize_no_recording_witness:
  "\<not> path_exists one_partial (session_path ''t'' ''.webm.partial'')
   \<and> \<not> path_exists one_partial (session_path ''t'' ''.webm'')
   \<and> finalize (quiet_env 5) ''t'' one_partial
       = (one_partial,
          \<lparr>code = 404,
           payload = Json (JObj [(''ok'', JBool False), (''error'', JStr ''no recording'')]),
           headers = []\<rparr>)"
  using finalize_no_recording [of one_partial "''t''" "quiet_env 5"]
  by (simp add: path_exists_def one_partial_def session_path_def jsonify_def)

lemma finalize_existing:
  assumes "path_exists w (session_path session_id ''.webm'')"
  shows "finalize e session_id w
           = (w, jsonify 200
                   ([(''ok'', JBool True), (''webm'', JStr (session_path session_id ''.webm''))]
                    @ (if path_exists w (mp4_of (session_path session_id ''.webm''))
                       then [(''mp4'', JStr (mp4_of (session_path session_id ''.webm'')))] else [])))"
  using assms by (simp add: finalize_def Let_def)

lemma finalize_ok_exists:
  assumes "finalize e session_id w = (w1, r1)" and "code r1 = 200"
  shows "path_exists w1 (session_path session_id ''.webm'')
       \<and> field r1 ''webm'' = Some (JStr (session_path session_id ''.webm''))"
proof (cases "path_exists w (session_path session_id ''.webm'')")
  case True
  with assms show ?thesis
    by (auto simp: finalize_existing field_def jsonify_def)
next
  case False
  show ?thesis
  proof (cases "path_exists w (session_path session_id ''.webm.partial'')")
    case no: False
    with False assms show ?thesis
      by (auto simp: finalize_def PART_EXT_def jsonify_def)
  next
    case yes: True
    then obtain f where f: "map_of (files w) (session_path session_id ''.webm.partial'') = Some f"
      by (auto simp: path_exists_def)
    then obtain wm where wm: "shutil_move (session_path session_id ''.webm.partial'')
        (session_path session_id ''.webm'') w = Some wm"
      by (simp add: shutil_move_def)
    have ex: "map_of (files wm) (session_path session_id ''.webm'') = Some f"
      using shutil_move_files [OF wm] f by simp
    obtain w2 m where fm: "finalize_to_mp4 e (session_path session_id ''.webm'') wm = (w2, m)"
      by (cases "finalize_to_mp4 e (session_path session_id ''.webm'') wm")
    have "map_of (files w2) (session_path session_id ''.webm'') = Some f"
      using finalize_to_mp4_other [of "session_path session_id ''.webm''"
          "session_path session_id ''.webm''" e wm] fm ex mp4_of_not_webm [of "session_path session_id ''.webm''" session_id]
      by (metis fst_conv)
    then have pe: "path_exists w2 (session_path session_id ''.webm'')"
      by (simp add: path_exists_def)
    have "finalize e session_id w = (w2, jsonify 200
                         [(''ok'', JBool True),
                          (''webm'', JStr (session_path session_id ''.webm'')),
                          (''mp4'',
                             case m of
                               None \<Rightarrow> JNull
                             | Some p \<Rightarrow> if path_exists w2 p then JStr p else JNull),
                          (''at'', JStamp (now_iso e))])"
      using False yes wm fm pe by (simp add: finalize_def PART_EXT_def Let_def)
    with assms pe show ?thesis
      by (auto simp: field_def jsonify_def)
  qed
qed

lemma finalize_from_partial:
  assumes f: "map_of (files w) (session_path session_id ''.webm.partial'') = Some f"
    and nw: "\<not> path_exists w (session_path session_id ''.webm'')"
  shows "\<exists>wm. shutil_move (session_path session_id ''.webm.partial'')
                 (session_path session_id ''.webm'') w = Some wm
            \<and> finalize e session_id w
                = (fst (finalize_to_mp4 e (session_path session_id ''.webm'') wm),
                   jsonify 200
                     [(''ok'', JBool True),
                      (''webm'', JStr (session_path session_id ''.webm'')),
                      (''mp4'',
                         case snd (finalize_to_mp4 e (session_path session_id ''.webm'') wm) of
                           None \<Rightarrow> JNull
                         | Some p \<Rightarrow>
                             if path_exists
                                  (fst (finalize_to_mp4 e (session_path session_id ''.webm'') wm)) p
                             then JStr p else JNull),
                      (''at'', JStamp (now_iso e))])"
proof -
  obtain wm where wm: "shutil_move (session_path session_id ''.webm.partial'')
        (session_path session_id ''.webm'') w = Some wm"
    using f by (simp add: shutil_move_def)
  have ex: "map_of (files wm) (session_path session_id ''.webm'') = Some f"
    using shutil_move_files [OF wm] f by simp
  obtain w2 m where fm: "finalize_to_mp4 e (session_path session_id ''.webm'') wm = (w2, m)"
    by (cases "finalize_to_mp4 e (session_path session_id ''.webm'') wm")
  have "map_of (files w2) (session_path session_id ''.webm'') = Some f"
    using finalize_to_mp4_other [of "session_path session_id ''.webm''"
        "session_path session_id ''.webm''" e wm] fm ex
      mp4_of_not_webm [of "session_path session_id ''.webm''" session_id]
    by (metis fst_conv)
  then have pe: "path_exists w2 (session_path session_id ''.webm'')"
    by (simp add: path_exists_def)
  have pp: "path_exists w (session_path session_id ''.webm.partial'')"
    using f by (simp add: path_exists_def)
  have "finalize e session_id w = (w2, jsonify 200
                       [(''ok'', JBool True),
                        (''webm'', JStr (session_path session_id ''.webm'')),
                        (''mp4'',
                           case m of
                             None \<Rightarrow> JNull
                           | Some p \<Rightarrow> if path_exists w2 p then JStr p else JNull),
                        (''at'', JStamp (now_iso e))])"
    using nw pp wm fm pe by (simp add: finalize_def PART_EXT_def Let_def)
  with wm fm show ?thesis by (simp split: option.splits)
qed

lemma finalize_to_mp4_failure:
  assumes "\<not> ffmpeg_version_ok e \<or> fst (ffmpeg_run e (map_option content (map_of (files w) p))) \<noteq> Exit_zero"
  shows "snd (finalize_to_mp4 e p w) = None"
  using assms
  by (auto simp: finalize_to_mp4_def ffmpeg_available_def Let_def split: prod.splits proc_exit.splits)

text \<open>
  C2. When the finalized video of a session exists, finalize answers 200 with
  \<^verbatim>\<open>ok\<close> true, the finalized file name and, when the transcoded video exists, its
  name, and leaves the storage directory as it was. In particular a finalize that
  follows a successful finalize of the same session changes nothing and reports the
  same finalized file name as the first.
\<close>

theorem finalize_idempotent:
  "(path_exists w (session_path session_id ''.webm'') \<longrightarrow>
      finalize e session_id w
        = (w, jsonify 200
                ([(''ok'', JBool True), (''webm'', JStr (session_path session_id ''.webm''))]
                 @ (if path_exists w (mp4_of (session_path session_id ''.webm''))
                    then [(''mp4'', JStr (mp4_of (session_path session_id ''.webm'')))] else []))))
   \<and> (finalize e session_id w = (w1, r1) \<and> code r1 = 200 \<longrightarrow>
        fst (finalize e' session_id w1) = w1
        \<and> code (snd (finalize e' session_id w1)) = 200
        \<and> field (snd (finalize e' session_id w1)) ''webm'' = field r1 ''webm''
        \<and> field r1 ''webm'' = Some (JStr (session_path session_id ''.webm'')))"
proof (intro conjI impI)
  assume "path_exists w (session_path session_id ''.webm'')"
  then show "finalize e session_id w
        = (w, jsonify 200
                ([(''ok'', JBool True), (''webm'', JStr (session_path session_id ''.webm''))]
                 @ (if path_exists w (mp4_of (session_path session_id ''.webm''))
                    then [(''mp4'', JStr (mp4_of (session_path session_id ''.webm'')))] else [])))"
    by (rule finalize_existing)
next
  assume a: "finalize e session_id w = (w1, r1) \<and> code r1 = 200"
  then have ex: "path_exists w1 (session_path session_id ''.webm'')"
    and fld: "field r1 ''webm'' = Some (JStr (session_path session_id ''.webm''))"
    using finalize_ok_exists by blast+
  show "fst (finalize e' session_id w1) = w1"
    by (simp add: finalize_existing [OF ex])
  show "code (snd (finalize e' session_id w1)) = 200"
    by (simp add: finalize_existing [OF ex] jsonify_def)
  show "field (snd (finalize e' session_id w1)) ''webm'' = field r1 ''webm''"
    unfolding fld by (simp add: finalize_existing [OF ex] jsonify_def field_def)
  show "field r1 ''webm'' = Some (JStr (session_path session_id ''.webm''))"
    by (rule fld)
qed

theorem finalize_idempotent_witness:
  "path_exists one_final (session_path ''s'' ''.webm'')
   \<and> finalize (quiet_env 5) ''s'' one_final
       = (one_final, jsonify 200 [(''ok'', JBool True), (''webm'', JStr ''s.webm'')])
   \<and> code (snd (finalize (quiet_env 3000000) ''s'' one_partial)) = 200
   \<and> fst (finalize (quiet_env 9) ''s'' (fst (finalize (quiet_env 3000000) ''s'' one_partial)))
       = fst (finalize (quiet_env 3000000) ''s'' one_partial)
   \<and> field (snd (finalize (quiet_env 9) ''s'' (fst (finalize (quiet_env 3000000) ''s'' one_partial))))
         ''webm''
       = Some (JStr ''s.webm'')"
proof -
  have a: "path_exists one_final (session_path ''s'' ''.webm'')"
    by (simp add: path_exists_def one_final_def session_path_def)
  have m: "\<not> path_exists one_final (mp4_of (session_path ''s'' ''.webm''))"
    using mp4_of_not_webm [of "session_path ''s'' ''.webm''" "''s''"]
    by (simp add: path_exists_def one_final_def session_path_def)
  have first: "code (snd (finalize (quiet_env 3000000) ''s'' one_partial)) = 200"
    by (simp add: finalize_def finalize_to_mp4_def quiet_env_def path_exists_def
        shutil_move_def session_path_def PART_EXT_def ffmpeg_available_def jsonify_def
        one_partial_def Let_def)
  have p1: "finalize (quiet_env 5) ''s'' one_final
       = (one_final, jsonify 200 [(''ok'', JBool True), (''webm'', JStr ''s.webm'')])"
    using finalize_idempotent [of one_final "''s''" "quiet_env 5"] a m
    by (simp add: session_path_def)
  have p2: "fst (finalize (quiet_env 9) ''s'' (fst (finalize (quiet_env 3000000) ''s'' one_partial)))
       = fst (finalize (quiet_env 3000000) ''s'' one_partial)
     \<and> field (snd (finalize (quiet_env 9) ''s''
                      (fst (finalize (quiet_env 3000000) ''s'' one_partial)))) ''webm''
       = Some (JStr ''s.webm'')"
    using finalize_idempotent [of one_partial "''s''" "quiet_env 3000000"
      "fst (finalize (quiet_env 3000000) ''s'' one_partial)"
      "snd (finalize (quiet_env 3000000) ''s'' one_partial)" "quiet_env 9"] first
    by (simp add: session_path_def)
  show ?thesis using a p1 p2 first by simp
qed

text \<open>
  C4 (as amended). When a session has a partial video and no finalized video, and the
  transcoder is missing or its run does not exit with status 0, finalize still answers
  200 with \<^verbatim>\<open>ok\<close> true and the finalized file name, and carries no \<^verbatim>\<open>error\<close> field; the
  finalized file holds what the partial file held. The \<^verbatim>\<open>mp4\<close> field is present in the
  response, with the value null.
\<close>

theorem finalize_swallows_transcoder_failure:
  assumes f: "map_of (files w) (session_path session_id ''.webm.partial'') = Some f"
    and nw: "\<not> path_exists w (session_path session_id ''.webm'')"
    and fails: "\<not> ffmpeg_version_ok e \<or> fst (ffmpeg_run e (Some (content f))) \<noteq> Exit_zero"
    and fin: "finalize e session_id w = (w', r)"
  shows "code r = 200
       \<and> field r ''ok'' = Some (JBool True)
       \<and> field r ''webm'' = Some (JStr (session_path session_id ''.webm''))
       \<and> field r ''mp4'' = Some JNull
       \<and> field r ''error'' = None
       \<and> map_of (files w') (session_path session_id ''.webm'') = Some f"
proof -
  obtain wm where wm: "shutil_move (session_path session_id ''.webm.partial'')
        (session_path session_id ''.webm'') w = Some wm"
    and eq: "finalize e session_id w
                = (fst (finalize_to_mp4 e (session_path session_id ''.webm'') wm),
                   jsonify 200
                     [(''ok'', JBool True),
                      (''webm'', JStr (session_path session_id ''.webm'')),
                      (''mp4'',
                         case snd (finalize_to_mp4 e (session_path session_id ''.webm'') wm) of
                           None \<Rightarrow> JNull
                         | Some p \<Rightarrow>
                             if path_exists
                                  (fst (finalize_to_mp4 e (session_path session_id ''.webm'') wm)) p
                             then JStr p else JNull),
                      (''at'', JStamp (now_iso e))])"
    using finalize_from_partial [OF f nw, of e] by blast
  have ex: "map_of (files wm) (session_path session_id ''.webm'') = Some f"
    using shutil_move_files [OF wm] f by simp
  then have none: "snd (finalize_to_mp4 e (session_path session_id ''.webm'') wm) = None"
    using fails by (intro finalize_to_mp4_failure) simp
  have keep: "map_of (files (fst (finalize_to_mp4 e (session_path session_id ''.webm'') wm)))
                (session_path session_id ''.webm'') = Some f"
    using finalize_to_mp4_other [of "session_path session_id ''.webm''"
        "session_path session_id ''.webm''" e wm] ex
      mp4_of_not_webm [of "session_path session_id ''.webm''" session_id]
    by simp
  from fin eq none keep show ?thesis
    by (auto simp: field_def jsonify_def)
qed

theorem finalize_swallows_transcoder_failure_witness:
  "map_of (files one_partial) (session_path ''s'' ''.webm.partial'')
     = Some \<lparr>content = [1, 2], mtime = 1000000\<rparr>
   \<and> \<not> path_exists one_partial (session_path ''s'' ''.webm'')
   \<and> fst (ffmpeg_run (failing_env 3000000) (Some [1, 2])) \<noteq> Exit_zero
   \<and> code (snd (finalize (failing_env 3000000) ''s'' one_partial)) = 200
   \<and> field (snd (finalize (failing_env 3000000) ''s'' one_partial)) ''webm'' = Some (JStr ''s.webm'')
   \<and> field (snd (finalize (failing_env 3000000) ''s'' one_partial)) ''mp4'' = Some JNull"
proof -
  have f: "map_of (files one_partial) (session_path ''s'' ''.webm.partial'')
             = Some \<lparr>content = [1, 2], mtime = 1000000\<rparr>"
    by (simp add: one_partial_def session_path_def)
  have nw: "\<not> path_exists one_partial (session_path ''s'' ''.webm'')"
    by (simp add: one_partial_def session_path_def path_exists_def)
  have fails: "\<not> ffmpeg_version_ok (failing_env 3000000)
       \<or> fst (ffmpeg_run (failing_env 3000000) (Some (content \<lparr>content = [1, 2], mtime = 1000000\<rparr>)))
           \<noteq> Exit_zero"
    by (simp add: failing_env_def)
  have "code (snd (finalize (failing_env 3000000) ''s'' one_partial)) = 200
   \<and> field (snd (finalize (failing_env 3000000) ''s'' one_partial)) ''webm''
       = Some (JStr (session_path ''s'' ''.webm''))
   \<and> field (snd (finalize (failing_env 3000000) ''s'' one_partial)) ''mp4'' = Some JNull"
    using finalize_swallows_transcoder_failure [OF f nw fails,
        of "fst (finalize (failing_env 3000000) ''s'' one_partial)"
           "snd (finalize (failing_env 3000000) ''s'' one_partial)"]
    by simp
  with f nw show ?thesis by (simp add: failing_env_def session_path_def)
qed

text \<open>
  C4 as stated fails: on a host without the transcoder the response to the finalize of
  a session with a partial video does carry the field \<^verbatim>\<open>mp4\<close>; its value is null.
\<close>

theorem finalize_mp4_field_counterexample:
  "path_exists one_partial (session_path ''s'' ''.webm.partial'')
   \<and> \<not> ffmpeg_version_ok (quiet_env 3000000)
   \<and> code (snd (finalize (quiet_env 3000000) ''s'' one_partial)) = 200
   \<and> field (snd (finalize (quiet_env 3000000) ''s'' one_partial)) ''mp4'' \<noteq> None
   \<and> field (snd (finalize (quiet_env 3000000) ''s'' one_partial)) ''mp4'' = Some JNull"
  by (simp add: finalize_def finalize_to_mp4_def quiet_env_def path_exists_def
      shutil_move_def session_path_def PART_EXT_def ffmpeg_available_def jsonify_def
      one_partial_def Let_def field_def)

section \<open>Uploading and finalizing\<close>

lemma run_append: "run (xs @ ys) w = run ys (run xs w)"
  by (induction xs arbitrary: w) auto

lemma app_upload:
  "app e (upload_rq session_id chunk) w = upload_chunk e session_id chunk w"
  by (simp add: app_def upload_rq_def route_def only_def handle_def)

lemma app_finalize:
  "app e (finalize_rq session_id) w = finalize e session_id w"
  by (simp add: app_def finalize_rq_def route_def only_def handle_def)

lemma upload_chunk_files:
  "map_of (files (fst (upload_chunk e session_id chunk w)))
     = (map_of (files w))(session_path session_id ''.webm.partial'' \<mapsto>
          \<lparr>content = held w (session_path session_id ''.webm.partial'') @ chunk,
           mtime = (case map_of (files w) (session_path session_id ''.webm.partial'') of
                      None \<Rightarrow> now e
                    | Some f \<Rightarrow> if chunk = [] then mtime f else now e)\<rparr>)"
  by (auto simp: upload_chunk_def open_ab_write_def getsize_def held_def PART_EXT_def
      update_conv' Let_def split: option.splits)

lemma uploads_held:
  "held (run (map (\<lambda>(e, c). (e, upload_rq session_id c)) ups) w)
        (session_path session_id ''.webm.partial'')
     = held w (session_path session_id ''.webm.partial'') @ concat (map snd ups)"
proof (induction ups arbitrary: w)
  case Nil
  show ?case by simp
next
  case (Cons u ups)
  obtain e c where u: "u = (e, c)" by (cases u)
  have "held (fst (upload_chunk e session_id c w)) (session_path session_id ''.webm.partial'')
          = held w (session_path session_id ''.webm.partial'') @ c"
    by (simp add: held_def upload_chunk_files)
  then show ?case
    using Cons.IH [of "fst (upload_chunk e session_id c w)"] by (simp add: u app_upload)
qed

lemma uploads_other:
  "q \<noteq> session_path session_id ''.webm.partial'' \<Longrightarrow>
     map_of (files (run (map (\<lambda>(e, c). (e, upload_rq session_id c)) ups) w)) q
       = map_of (files w) q"
proof (induction ups arbitrary: w)
  case Nil
  show ?case by simp
next
  case (Cons u ups)
  obtain e c where u: "u = (e, c)" by (cases u)
  show ?case
    using Cons.IH [of "fst (upload_chunk e session_id c w)"] Cons.prems
    by (simp add: u app_upload upload_chunk_files)
qed

lemma uploads_exists:
  "ups \<noteq> [] \<or> path_exists w (session_path session_id ''.webm.partial'') \<Longrightarrow>
     path_exists (run (map (\<lambda>(e, c). (e, upload_rq session_id c)) ups) w)
       (session_path session_id ''.webm.partial'')"
proof (induction ups arbitrary: w)
  case Nil
  then show ?case by simp
next
  case (Cons u ups)
  obtain e c where u: "u = (e, c)" by (cases u)
  have "path_exists (fst (upload_chunk e session_id c w)) (session_path session_id ''.webm.partial'')"
    by (simp add: path_exists_def upload_chunk_files)
  then show ?case
    using Cons.IH [of "fst (upload_chunk e session_id c w)"] by (simp add: u app_upload)
qed

text \<open>
  C1. For a session that has neither a partial nor a finalized video yet, uploading
  one or more chunks one after the other and then finalizing leaves a finalized video
  whose bytes are the chunk bodies concatenated in upload order, so its length is the
  sum of the chunk lengths; whatever the transcoder does.
\<close>

theorem upload_then_finalize_concatenates:
  assumes fresh_partial: "\<not> path_exists w (session_path session_id ''.webm.partial'')"
    and fresh_webm: "\<not> path_exists w (session_path session_id ''.webm'')"
    and some: "ups \<noteq> []"
  shows "path_exists (run (upload_requests session_id ups
                            @ [(e, finalize_rq session_id)]) w)
           (session_path session_id ''.webm'')
       \<and> held (run (upload_requests session_id ups
                      @ [(e, finalize_rq session_id)]) w)
           (session_path session_id ''.webm'')
         = concat (map snd ups)
       \<and> length (held (run (upload_requests session_id ups
                              @ [(e, finalize_rq session_id)]) w)
                   (session_path session_id ''.webm''))
         = sum_list (map (\<lambda>(e, c). length c) ups)"
proof -
  note upload_requests_def [simp]
  let ?p = "session_path session_id ''.webm.partial''"
  let ?m = "session_path session_id ''.webm''"
  let ?wu = "run (map (\<lambda>(e, c). (e, upload_rq session_id c)) ups) w"
  have h0: "held w ?p = []"
    using fresh_partial by (simp add: held_def path_exists_def)
  have hp: "held ?wu ?p = concat (map snd ups)"
    using uploads_held [of session_id ups w] h0 by simp
  have "path_exists ?wu ?p"
    using some by (intro uploads_exists) simp
  then obtain f where f: "map_of (files ?wu) ?p = Some f"
    by (auto simp: path_exists_def)
  have cf: "content f = concat (map snd ups)"
    using hp f by (simp add: held_def)
  have nw: "\<not> path_exists ?wu ?m"
    using fresh_webm uploads_other [of ?m session_id ups w] partial_not_webm [of session_id session_id]
    by (simp add: path_exists_def)
  obtain wm where wm: "shutil_move ?p ?m ?wu = Some wm"
    and eq: "fst (finalize e session_id ?wu) = fst (finalize_to_mp4 e ?m wm)"
    using finalize_from_partial [OF f nw, of e] by fastforce
  have "map_of (files wm) ?m = Some f"
    using shutil_move_files [OF wm] f by simp
  then have "map_of (files (fst (finalize e session_id ?wu))) ?m = Some f"
    using finalize_to_mp4_other [of ?m ?m e wm] mp4_of_not_webm [of ?m session_id] eq
    by simp
  then have fin: "map_of (files (run (upload_requests session_id ups
                            @ [(e, finalize_rq session_id)]) w)) ?m = Some f"
    by (simp add: run_append app_finalize)
  have len: "length (concat (map snd ups)) = sum_list (map (\<lambda>(e, c). length c) ups)"
    by (induction ups) auto
  show ?thesis
    using fin cf len by (simp add: path_exists_def held_def)
qed

theorem upload_then_finalize_concatenates_witness:
  "\<not> path_exists one_final (session_path ''v'' ''.webm.partial'')
   \<and> \<not> path_exists one_final (session_path ''v'' ''.webm'')
   \<and> held (run (upload_requests ''v'' [(quiet_env 2000000, [7, 8]), (failing_env 3000000, [9])]
                 @ [(failing_env 4000000, finalize_rq ''v'')]) one_final)
           (session_path ''v'' ''.webm'')
       = [7, 8, 9]
   \<and> length (held (run (upload_requests ''v'' [(quiet_env 2000000, [7, 8]), (failing_env 3000000, [9])]
                         @ [(failing_env 4000000, finalize_rq ''v'')]) one_final)
                   (session_path ''v'' ''.webm''))
       = 3"
proof -
  have a: "\<not> path_exists one_final (session_path ''v'' ''.webm.partial'')"
    by (simp add: path_exists_def one_final_def session_path_def)
  have b: "\<not> path_exists one_final (session_path ''v'' ''.webm'')"
    by (simp add: path_exists_def one_final_def session_path_def)
  have c: "[(quiet_env 2000000, [7, 8 :: byte]), (failing_env 3000000, [9])] \<noteq> []"
    by simp
  show ?thesis
    using upload_then_finalize_concatenates [OF a b c, of "failing_env 4000000"] a b
    by simp
qed

section \<open>The directory lister\<close>

lemma py_sorted_reverse_sorted:
  "sorted_wrt (\<lambda>a b. key b \<le> key a) (py_sorted_reverse key xs)"
  using sorted_sort_key [of key "rev xs"]
  by (simp add: py_sorted_reverse_def sorted_wrt_rev sorted_map)

lemma set_py_sorted_reverse: "set (py_sorted_reverse key xs) = set xs"
  by (simp add: py_sorted_reverse_def)

lemma endswith_suffix: "endswith s suf = suffix suf s"
proof
  assume "endswith s suf"
  then have "s = take (length s - length suf) s @ suf"
    by (metis append_take_drop_id endswith_def)
  then show "suffix suf s" by (rule suffixI)
next
  assume "suffix suf s"
  then obtain zs where "s = zs @ suf" by (auto simp: suffix_def)
  then show "endswith s suf" by (simp add: endswith_def)
qed

lemma ishidden_prefix: "ishidden n = prefix ''.'' n"
  by (cases n) (auto simp: ishidden_def)

lemma glob_star_filter:
  "glob_star w ext = filter (\<lambda>(n, f). \<not> prefix ''.'' n \<and> suffix ext n) (files w)"
  by (simp add: glob_star_def endswith_suffix ishidden_prefix)

lemma those_all_Some: "\<forall>x\<in>set xs. g x = Some (h x) \<Longrightarrow> those (map g xs) = Some (map h xs)"
  by (induction xs) auto

lemma those_append_Some:
  "those xs = Some a \<Longrightarrow> those ys = Some b \<Longrightarrow> those (xs @ ys) = Some (a @ b)"
  by (induction xs arbitrary: a) (auto split: option.splits)

lemma video_of_entry:
  "mtime (snd nf) div 1000000 \<le> 253402300799 \<Longrightarrow> video_of k nf = Some (entry k nf)"
  by (simp add: video_of_def entry_def utc_strftime_def seconds_def)

lemma list_videos_representable:
  assumes "representable w"
  shows "list_videos w = Some (py_sorted_reverse modified (video_entries w))"
proof -
  have a: "those (map (video_of ''mp4'') (glob_star w ''.mp4''))
             = Some (map (entry ''mp4'') (glob_star w ''.mp4''))"
    using assms
    by (intro those_all_Some) (auto simp: representable_def glob_star_filter intro!: video_of_entry)
  have b: "those (map (video_of ''webm'') (glob_star w ''.webm''))
             = Some (map (entry ''webm'') (glob_star w ''.webm''))"
    using assms
    by (intro those_all_Some) (auto simp: representable_def glob_star_filter intro!: video_of_entry)
  show ?thesis
    using those_append_Some [OF a b]
    by (simp add: list_videos_def video_entries_def glob_star_filter)
qed

lemma py_sorted_reverse_stable:
  "filter (\<lambda>y. key y = k) (py_sorted_reverse key xs) = filter (\<lambda>y. key y = k) xs"
proof -
  have "filter (\<lambda>y. key y = k) (py_sorted_reverse key xs)
          = rev (filter (\<lambda>y. key y = k) (sort_key key (rev xs)))"
    by (simp add: py_sorted_reverse_def rev_filter)
  also have "\<dots> = rev (filter (\<lambda>y. key y = k) (rev xs))"
    by (simp only: sort_key_stable)
  also have "\<dots> = filter (\<lambda>y. key y = k) xs"
    by (simp add: rev_filter)
  finally show ?thesis .
qed

lemma is_listing_sorted: "is_listing w (py_sorted_reverse modified (video_entries w))"
  by (simp add: is_listing_def py_sorted_reverse_sorted py_sorted_reverse_stable)

text \<open>The two conditions of a listing leave one list only: the one that the code computes.\<close>

lemma mset_eq_by_key:
  assumes "\<And>k. filter (\<lambda>v. key v = k) a = filter (\<lambda>v. key v = k) b"
  shows "mset a = mset b"
proof (rule multiset_eqI)
  fix x
  have "count (mset a) x = count (mset (filter (\<lambda>v. key v = key x) a)) x"
    by simp
  also have "\<dots> = count (mset (filter (\<lambda>v. key v = key x) b)) x"
    by (simp only: assms)
  also have "\<dots> = count (mset b) x"
    by simp
  finally show "count (mset a) x = count (mset b) x" .
qed

lemma py_sorted_reverse_unique:
  fixes key :: "'a \<Rightarrow> nat"
  assumes srt: "sorted_wrt (\<lambda>a b. key b \<le> key a) ys"
    and st: "\<And>k. filter (\<lambda>v. key v = k) ys = filter (\<lambda>v. key v = k) xs"
  shows "ys = py_sorted_reverse key xs"
proof -
  have m: "mset (rev ys) = mset (rev xs)"
    using mset_eq_by_key [of key ys xs] st by simp
  have f: "\<And>k. filter (\<lambda>x. key k = key x) (rev ys) = filter (\<lambda>x. key k = key x) (rev xs)"
  proof -
    fix k
    have "filter (\<lambda>x. key k = key x) ys = filter (\<lambda>x. key x = key k) ys"
      by (rule filter_cong) auto
    moreover have "filter (\<lambda>x. key k = key x) xs = filter (\<lambda>x. key x = key k) xs"
      by (rule filter_cong) auto
    ultimately have "filter (\<lambda>x. key k = key x) ys = filter (\<lambda>x. key k = key x) xs"
      using st [of "key k"] by simp
    then show "filter (\<lambda>x. key k = key x) (rev ys) = filter (\<lambda>x. key k = key x) (rev xs)"
      by (simp add: rev_filter [symmetric])
  qed
  have s: "sorted (map key (rev ys))"
    using srt by (simp add: sorted_map sorted_wrt_rev)
  have "sort_key key (rev xs) = rev ys"
    by (rule properties_for_sort_key [OF m f s])
  then show ?thesis by (simp add: py_sorted_reverse_def)
qed

lemma is_listing_iff:
  "is_listing w vids \<longleftrightarrow> vids = py_sorted_reverse modified (video_entries w)"
proof
  assume "is_listing w vids"
  then show "vids = py_sorted_reverse modified (video_entries w)"
    unfolding is_listing_def by (intro py_sorted_reverse_unique) auto
next
  assume "vids = py_sorted_reverse modified (video_entries w)"
  then show "is_listing w vids" by (simp add: is_listing_sorted)
qed

lemma same_second_listing:
  "list_videos same_second
     = Some [\<lparr>filename = ''a.mp4'', bytes = 1, modified = 5, url = ''/video/a.mp4'', kind = ''mp4''\<rparr>,
             \<lparr>filename = ''b.webm'', bytes = 1, modified = 5, url = ''/video/b.webm'', kind = ''webm''\<rparr>]"
  by (simp add: list_videos_def same_second_def glob_star_def ishidden_def endswith_def
      video_of_def utc_strftime_def py_sorted_reverse_def seconds_def)

text \<open>
  C6 (as amended). When the modification times of the videos lie within the range of
  \<^verbatim>\<open>datetime\<close>, \<^verbatim>\<open>GET /status\<close> answers 200 with the listing of the directory: the
  videos whose name does not start with a dot and ends with \<^verbatim>\<open>.mp4\<close> or \<^verbatim>\<open>.webm\<close>, in
  descending order of the \<^verbatim>\<open>modified\<close> field, the modification time cut to whole
  seconds, across transcoded and raw videos together; videos modified within the same
  second stand in glob order, all \<^verbatim>\<open>.mp4\<close> matches before all \<^verbatim>\<open>.webm\<close> matches and each
  kind in scan order.
\<close>

theorem status_listing_stably_sorted_by_seconds:
  assumes "representable w"
  shows "\<exists>vids. is_listing w vids
           \<and> status e w
               = jsonify 200
                   [(''ok'', JBool True), (''videos'', JArr (map video_json vids)),
                    (''server_time'', JStamp (now_iso e))]"
  using list_videos_representable [OF assms] is_listing_sorted [of w]
  by (auto simp: status_def)

theorem status_listing_stably_sorted_by_seconds_witness:
  "representable same_second
   \<and> (\<exists>vids. is_listing same_second vids
          \<and> status (quiet_env 7000000) same_second
              = jsonify 200
                  [(''ok'', JBool True), (''videos'', JArr (map video_json vids)),
                   (''server_time'', JStamp 7)])
   \<and> field (status (quiet_env 7000000) same_second) ''videos''
       = Some (JArr [video_json \<lparr>filename = ''a.mp4'', bytes = 1, modified = 5,
                                 url = ''/video/a.mp4'', kind = ''mp4''\<rparr>,
                     video_json \<lparr>filename = ''b.webm'', bytes = 1, modified = 5,
                                 url = ''/video/b.webm'', kind = ''webm''\<rparr>])"
proof -
  have r: "representable same_second"
    by (simp add: representable_def same_second_def)
  have t: "now_iso (quiet_env 7000000) = 7"
    by (simp add: now_iso_def quiet_env_def seconds_def)
  have f: "field (status (quiet_env 7000000) same_second) ''videos''
       = Some (JArr [video_json \<lparr>filename = ''a.mp4'', bytes = 1, modified = 5,
                                 url = ''/video/a.mp4'', kind = ''mp4''\<rparr>,
                     video_json \<lparr>filename = ''b.webm'', bytes = 1, modified = 5,
                                 url = ''/video/b.webm'', kind = ''webm''\<rparr>])"
    by (simp add: status_def same_second_listing field_def jsonify_def)
  show ?thesis
    using status_listing_stably_sorted_by_seconds [OF r, of "quiet_env 7000000"] r f
    by (simp add: t)
qed

text \<open>
  C6 as stated fails: of two videos modified within the same second the listing puts
  the transcoded one first although the raw one was modified later; and for a video
  modified after the year 9999 the request is not answered with a listing at all.
\<close>

theorem status_listing_counterexample:
  "map_option (map filename) (list_videos same_second) = Some [''a.mp4'', ''b.webm'']
   \<and> file_mtime same_second ''a.mp4'' = 5200000
   \<and> file_mtime same_second ''b.webm'' = 5700000
   \<and> map_option (map modified) (list_videos same_second) = Some [5, 5]
   \<and> \<not> listing_by_mtime same_second
   \<and> status (quiet_env 7000000) far_future = server_error"
proof -
  have a: "file_mtime same_second ''a.mp4'' = 5200000"
    and b: "file_mtime same_second ''b.webm'' = 5700000"
    by (simp_all add: file_mtime_def same_second_def)
  have n: "\<not> listing_by_mtime same_second"
    by (simp add: listing_by_mtime_def same_second_listing a b)
  have f: "status (quiet_env 7000000) far_future = server_error"
    by (simp add: status_def list_videos_def far_future_def glob_star_def ishidden_def
        endswith_def video_of_def utc_strftime_def seconds_def)
  from a b n f show ?thesis by (simp add: same_second_listing)
qed

lemma listed_in_files:
  assumes r: "representable w" and v: "v \<in> set (video_entries w)"
  shows "map_of (files w) (filename v) \<noteq> None"
proof -
  from v obtain k nf where "nf \<in> set (files w)" and "v = entry k nf"
    by (auto simp: video_entries_def)
  then have "filename v \<in> fst ` set (files w)"
    by (auto simp: entry_def)
  then show ?thesis
    by (simp add: map_of_eq_None_iff)
qed

lemma send_file_listed:
  assumes "representable w" and "v \<in> set (video_entries w)"
  shows "send_file w (filename v) [] = sent w v"
  using listed_in_files [OF assms] by (auto simp: send_file_def held_def sent_def)

lemma find_first:
  "find Q xs = Some v \<Longrightarrow> \<exists>pre post. xs = pre @ v # post \<and> (\<forall>u\<in>set pre. \<not> Q u) \<and> Q v"
proof (induction xs)
  case Nil
  then show ?case by simp
next
  case (Cons x xs)
  show ?case
  proof (cases "Q x")
    case True
    with Cons.prems have "x = v" by simp
    with True show ?thesis by (intro exI [of _ "[]"] exI [of _ xs]) auto
  next
    case False
    with Cons.prems have "find Q xs = Some v" by simp
    from Cons.IH [OF this] obtain pre post
      where "xs = pre @ v # post" "\<forall>u\<in>set pre. \<not> Q u" "Q v" by blast
    with False show ?thesis by (intro exI [of _ "x # pre"] exI [of _ post]) auto
  qed
qed

text \<open>
  C5 (as amended). When the directory holds at least one video and the modification
  times of the videos lie within the range of \<^verbatim>\<open>datetime\<close>, \<^verbatim>\<open>GET /latest\<close> answers 200
  with the file of a listed video: the first entry of the listing whose name ends with
  \<^verbatim>\<open>.mp4\<close> whenever there is one, whichever session it belongs to and also when a raw
  video stands before it; and the first entry of the listing only when no name in the
  listing ends with \<^verbatim>\<open>.mp4\<close>.
\<close>

theorem latest_serves_first_mp4:
  assumes r: "representable w" and ne: "video_entries w \<noteq> []"
  shows "\<exists>vids. is_listing w vids
           \<and> ((\<exists>pre v post. vids = pre @ v # post
                   \<and> (\<forall>u\<in>set pre. \<not> suffix ''.mp4'' (filename u))
                   \<and> suffix ''.mp4'' (filename v)
                   \<and> latest w = sent w v)
               \<or> ((\<forall>u\<in>set vids. \<not> suffix ''.mp4'' (filename u))
                   \<and> (\<exists>v rest. vids = v # rest \<and> latest w = sent w v)))"
proof -
  let ?vids = "py_sorted_reverse modified (video_entries w)"
  have lv: "list_videos w = Some ?vids" by (rule list_videos_representable [OF r])
  have il: "is_listing w ?vids" by (rule is_listing_sorted)
  have mem: "set ?vids = set (video_entries w)" by (rule set_py_sorted_reverse)
  with ne obtain v0 vs where l: "?vids = v0 # vs"
    by (cases ?vids) auto
  show ?thesis
  proof (cases "find (\<lambda>v. endswith (filename v) ''.mp4'') ?vids")
    case None
    then have no: "\<forall>u\<in>set ?vids. \<not> suffix ''.mp4'' (filename u)"
      by (simp add: find_None_iff endswith_suffix)
    have "v0 \<in> set (video_entries w)" using mem l by auto
    then have "send_file w (filename v0) [] = sent w v0" by (rule send_file_listed [OF r])
    moreover have "latest w = send_file w (filename v0) []"
      using None by (simp add: latest_def lv l)
    ultimately have "latest w = sent w v0" by simp
    with no l il show ?thesis by blast
  next
    case (Some v)
    from find_first [OF Some] obtain pre post
      where sp: "?vids = pre @ v # post"
        and pre: "\<forall>u\<in>set pre. \<not> suffix ''.mp4'' (filename u)"
        and q: "suffix ''.mp4'' (filename v)"
      by (auto simp: endswith_suffix)
    have "v \<in> set (video_entries w)" using mem sp by auto
    then have "send_file w (filename v) [] = sent w v" by (rule send_file_listed [OF r])
    moreover have "latest w = send_file w (filename v) []"
      using Some by (simp add: latest_def lv l)
    ultimately have "latest w = sent w v" by simp
    with sp pre q il show ?thesis by blast
  qed
qed

lemma older_mp4_listing:
  "list_videos older_mp4
     = Some [\<lparr>filename = ''new.webm'', bytes = 1, modified = 9, url = ''/video/new.webm'', kind = ''webm''\<rparr>,
             \<lparr>filename = ''old.mp4'', bytes = 1, modified = 2, url = ''/video/old.mp4'', kind = ''mp4''\<rparr>,
             \<lparr>filename = ''old.webm'', bytes = 1, modified = 1, url = ''/video/old.webm'', kind = ''webm''\<rparr>]"
  by (simp add: list_videos_def older_mp4_def glob_star_def ishidden_def endswith_def
      video_of_def utc_strftime_def py_sorted_reverse_def seconds_def)

theorem latest_serves_first_mp4_witness:
  "representable older_mp4
   \<and> video_entries older_mp4 \<noteq> []
   \<and> (\<exists>vids. is_listing older_mp4 vids
          \<and> ((\<exists>pre v post. vids = pre @ v # post
                  \<and> (\<forall>u\<in>set pre. \<not> suffix ''.mp4'' (filename u))
                  \<and> suffix ''.mp4'' (filename v)
                  \<and> latest older_mp4 = sent older_mp4 v)
              \<or> ((\<forall>u\<in>set vids. \<not> suffix ''.mp4'' (filename u))
                  \<and> (\<exists>v rest. vids = v # rest \<and> latest older_mp4 = sent older_mp4 v))))
   \<and> latest older_mp4 = \<lparr>code = 200, payload = File_sent ''old.mp4'' [2], headers = []\<rparr>"
proof -
  have r: "representable older_mp4"
    by (simp add: representable_def older_mp4_def)
  have ne: "video_entries older_mp4 \<noteq> []"
    by (simp add: video_entries_def older_mp4_def endswith_suffix [symmetric] endswith_def
        ishidden_prefix [symmetric] ishidden_def)
  have l: "latest older_mp4 = \<lparr>code = 200, payload = File_sent ''old.mp4'' [2], headers = []\<rparr>"
    by (simp add: latest_def older_mp4_listing endswith_def send_file_def)
       (simp add: older_mp4_def)
  from latest_serves_first_mp4 [OF r ne] r ne l show ?thesis by blast
qed

text \<open>
  C5 as stated fails: the most recent video is the raw video of a session that has no
  transcoded video, so the choice should fall on it by recency, yet \<^verbatim>\<open>/latest\<close> serves
  the older transcoded video of another session; and for a video modified after the
  year 9999 the request is not answered with a video at all.
\<close>

theorem latest_counterexample:
  "map_option (map filename) (list_videos older_mp4) = Some [''new.webm'', ''old.mp4'', ''old.webm'']
   \<and> \<not> path_exists older_mp4 ''new.mp4''
   \<and> latest_spec older_mp4 = Some ''new.webm''
   \<and> payload (latest older_mp4) = File_sent ''old.mp4'' [2]
   \<and> latest far_future = server_error"
proof -
  have p: "\<not> path_exists older_mp4 ''new.mp4''"
    by (simp add: path_exists_def older_mp4_def)
  have s: "latest_spec older_mp4 = Some ''new.webm''"
    by (simp add: latest_spec_def older_mp4_listing splitext_root_def)
  have l: "payload (latest older_mp4) = File_sent ''old.mp4'' [2]"
    by (simp add: latest_def older_mp4_listing endswith_def send_file_def)
       (simp add: older_mp4_def)
  have f: "latest far_future = server_error"
    by (simp add: latest_def list_videos_def far_future_def glob_star_def ishidden_def
        endswith_def video_of_def utc_strftime_def seconds_def)
  from p s l f show ?thesis by (simp add: older_mp4_listing)
qed

section \<open>The snapshot sink\<close>

lemma set_update_distinct:
  "distinct (map fst al) \<Longrightarrow>
     set (AList.update k v al) = insert (k, v) {x \<in> set al. fst x \<noteq> k}"
  by (induction al) (auto simp: rev_image_eqI)

lemma py_sorted_reverse_max_first:
  fixes key :: "'a \<Rightarrow> nat"
  assumes x: "x \<in> set xs" and top: "\<forall>y\<in>set xs. y \<noteq> x \<longrightarrow> key y < key x"
  shows "\<exists>rest. py_sorted_reverse key xs = x # rest"
proof (cases "py_sorted_reverse key xs")
  case Nil
  then have "set (py_sorted_reverse key xs) = {}" by simp
  with x show ?thesis by (simp add: set_py_sorted_reverse)
next
  case (Cons y0 rest)
  have srt: "sorted_wrt (\<lambda>a b. key b \<le> key a) (y0 # rest)"
    using py_sorted_reverse_sorted [of key xs] by (simp add: Cons)
  have mem: "set (y0 # rest) = set xs"
    using set_py_sorted_reverse [of key xs] by (simp add: Cons)
  have "y0 = x"
  proof (rule ccontr)
    assume ne: "y0 \<noteq> x"
    from mem have "y0 \<in> set xs" by auto
    with top ne have lt: "key y0 < key x" by blast
    from mem x ne have "x \<in> set rest" by auto
    with srt have "key x \<le> key y0" by auto
    with lt show False by simp
  qed
  with Cons show ?thesis by simp
qed

lemma snapshot_files:
  "files (fst (snapshot e session_id img w))
     = AList.update (session_path session_id ''.jpg'') \<lparr>content = img, mtime = now e\<rparr> (files w)"
  by (simp add: snapshot_def open_wb_write_def Let_def)

lemma snapshot_latest_newest:
  assumes d: "distinct (map fst (files w))"
    and vis: "\<not> ishidden (session_path session_id ''.jpg'')"
    and older: "\<forall>(n, f)\<in>set (files w).
                  n \<noteq> session_path session_id ''.jpg'' \<and> endswith n ''.jpg'' \<longrightarrow> mtime f < now e"
  shows "snapshot_latest (fst (snapshot e session_id img w))
           = \<lparr>code = 200, payload = File_sent (session_path session_id ''.jpg'') img,
              headers = [(''Content-Type'', ''image/jpeg'')]\<rparr>"
proof -
  let ?p = "session_path session_id ''.jpg''"
  let ?v = "\<lparr>content = img, mtime = now e\<rparr>"
  let ?w = "fst (snapshot e session_id img w)"
  have fs: "set (files ?w) = insert (?p, ?v) {x \<in> set (files w). fst x \<noteq> ?p}"
    by (simp add: snapshot_files set_update_distinct [OF d])
  have e: "endswith ?p ''.jpg''"
    by (simp add: endswith_def session_path_def)
  have inn: "(?p, ?v) \<in> set (glob_star ?w ''.jpg'')"
    using fs vis e by (simp add: glob_star_def)
  have top: "\<forall>y\<in>set (glob_star ?w ''.jpg''). y \<noteq> (?p, ?v)
               \<longrightarrow> (\<lambda>(n, f). mtime f) y < (\<lambda>(n, f). mtime f) (?p, ?v)"
    using fs older by (auto simp: glob_star_def)
  from py_sorted_reverse_max_first [OF inn top]
  obtain rest where "py_sorted_reverse (\<lambda>(n, f). mtime f) (glob_star ?w ''.jpg'') = (?p, ?v) # rest"
    by blast
  moreover have "map_of (files ?w) ?p = Some ?v"
    by (simp add: snapshot_files update_conv')
  ultimately show ?thesis
    by (simp add: snapshot_latest_def send_file_def)
qed

lemma distinct_snapshot:
  "distinct (map fst (files w)) \<Longrightarrow> distinct (map fst (files (fst (snapshot e session_id img w))))"
  by (simp add: snapshot_files distinct_update)

text \<open>
  C8 (as amended). After two successive snapshot uploads for a session, the session's
  snapshot file holds exactly the bytes of the second image, and the second upload
  answers 200 with a timestamp and the snapshot file name. There is no route
  \<^verbatim>\<open>GET /snapshot/<session_id>\<close>: such a request is answered 405 (the path belongs to the
  POST rule), except for the path \<^verbatim>\<open>/snapshot/latest\<close>. \<^verbatim>\<open>GET /snapshot/latest\<close> returns the
  second image when the names in the directory are distinct, the session's snapshot
  name is not hidden (the session identifier does not start with a dot) and every other
  snapshot in the directory is strictly older than the second upload.
\<close>

theorem snapshot_overwrites:
  assumes s1: "snapshot e1 session_id image1 w = (w1, r1)"
    and s2: "snapshot e2 session_id image2 w1 = (w2, r2)"
  shows "map_of (files w2) (session_path session_id ''.jpg'')
           = Some \<lparr>content = image2, mtime = now e2\<rparr>
       \<and> code r2 = 200
       \<and> field r2 ''at'' = Some (JStamp (now_iso e2))
       \<and> field r2 ''file'' = Some (JStr (session_path session_id ''.jpg''))
       \<and> (session_id \<noteq> ''latest'' \<longrightarrow>
            route GET [''snapshot'', session_id] = Method_not_allowed)
       \<and> (distinct (map fst (files w))
            \<and> \<not> ishidden (session_path session_id ''.jpg'')
            \<and> (\<forall>(n, f)\<in>set (files w).
                  n \<noteq> session_path session_id ''.jpg'' \<and> endswith n ''.jpg''
                    \<longrightarrow> mtime f < now e2)
            \<longrightarrow> snapshot_latest w2
                 = \<lparr>code = 200, payload = File_sent (session_path session_id ''.jpg'') image2,
                    headers = [(''Content-Type'', ''image/jpeg'')]\<rparr>)"
proof (intro conjI impI)
  have w1: "w1 = fst (snapshot e1 session_id image1 w)" using s1 by simp
  have w2: "w2 = fst (snapshot e2 session_id image2 w1)" using s2 by simp
  show "map_of (files w2) (session_path session_id ''.jpg'')
           = Some \<lparr>content = image2, mtime = now e2\<rparr>"
    by (simp add: w2 snapshot_files update_conv')
  show "code r2 = 200" and "field r2 ''at'' = Some (JStamp (now_iso e2))"
    and "field r2 ''file'' = Some (JStr (session_path session_id ''.jpg''))"
    using s2 by (auto simp: snapshot_def Let_def jsonify_def field_def)
  show "route GET [''snapshot'', session_id] = Method_not_allowed" if "session_id \<noteq> ''latest''"
    using that by (simp add: route_def only_def)
  show "snapshot_latest w2
                 = \<lparr>code = 200, payload = File_sent (session_path session_id ''.jpg'') image2,
                    headers = [(''Content-Type'', ''image/jpeg'')]\<rparr>"
    if h: "distinct (map fst (files w))
            \<and> \<not> ishidden (session_path session_id ''.jpg'')
            \<and> (\<forall>(n, f)\<in>set (files w).
                  n \<noteq> session_path session_id ''.jpg'' \<and> endswith n ''.jpg''
                    \<longrightarrow> mtime f < now e2)"
  proof -
    have d1: "distinct (map fst (files w1))"
      using h by (simp add: w1 distinct_snapshot)
    have "set (files w1) = insert (session_path session_id ''.jpg'', \<lparr>content = image1, mtime = now e1\<rparr>)
              {x \<in> set (files w). fst x \<noteq> session_path session_id ''.jpg''}"
      using h by (simp add: w1 snapshot_files set_update_distinct)
    then have older: "\<forall>(n, f)\<in>set (files w1).
                  n \<noteq> session_path session_id ''.jpg'' \<and> endswith n ''.jpg'' \<longrightarrow> mtime f < now e2"
      using h by auto
    from snapshot_latest_newest [OF d1 _ older, of image2] h show ?thesis
      by (simp add: w2)
  qed
qed

theorem snapshot_overwrites_witness:
  "distinct (map fst (files one_final))
   \<and> \<not> ishidden (session_path ''s'' ''.jpg'')
   \<and> map_of (files (fst (snapshot (quiet_env 3000000) ''s'' [8]
                            (fst (snapshot (quiet_env 2000000) ''s'' [7, 7] one_final)))))
         ''s.jpg''
       = Some \<lparr>content = [8], mtime = 3000000\<rparr>
   \<and> field (snd (snapshot (quiet_env 3000000) ''s'' [8]
                    (fst (snapshot (quiet_env 2000000) ''s'' [7, 7] one_final)))) ''file''
       = Some (JStr ''s.jpg'')
   \<and> route GET [''snapshot'', ''s''] = Method_not_allowed
   \<and> snapshot_latest (fst (snapshot (quiet_env 3000000) ''s'' [8]
                              (fst (snapshot (quiet_env 2000000) ''s'' [7, 7] one_final))))
       = \<lparr>code = 200, payload = File_sent ''s.jpg'' [8],
          headers = [(''Content-Type'', ''image/jpeg'')]\<rparr>"
proof -
  have d: "distinct (map fst (files one_final))"
    by (simp add: one_final_def)
  have v: "\<not> ishidden (session_path ''s'' ''.jpg'')"
    by (simp add: ishidden_def session_path_def)
  have o: "\<forall>(n, f)\<in>set (files one_final).
              n \<noteq> session_path ''s'' ''.jpg'' \<and> endswith n ''.jpg''
                \<longrightarrow> mtime f < now (quiet_env 3000000)"
    by (simp add: one_final_def endswith_def)
  have n: "''s'' \<noteq> ''latest''" by simp
  show ?thesis
    using snapshot_overwrites [of "quiet_env 2000000" "''s''" "[7, 7]" one_final
        "fst (snapshot (quiet_env 2000000) ''s'' [7, 7] one_final)"
        "snd (snapshot (quiet_env 2000000) ''s'' [7, 7] one_final)"
        "quiet_env 3000000" "[8]"
        "fst (snapshot (quiet_env 3000000) ''s'' [8]
               (fst (snapshot (quiet_env 2000000) ''s'' [7, 7] one_final)))"
        "snd (snapshot (quiet_env 3000000) ''s'' [8]
               (fst (snapshot (quiet_env 2000000) ''s'' [7, 7] one_final)))"]
      d v o n
    by (simp add: session_path_def quiet_env_def)
qed

text \<open>
  C8 as stated fails: after two snapshot uploads for session \<^verbatim>\<open>s\<close>, the request
  \<^verbatim>\<open>GET /snapshot/s\<close> is answered 405; and after two snapshot uploads for session
  \<^verbatim>\<open>.h\<close>, whose snapshot file holds the second image, \<^verbatim>\<open>GET /snapshot/latest\<close> is answered
  404, because the pattern \<^verbatim>\<open>*.jpg\<close> does not match a hidden name.
\<close>

theorem snapshot_retrieval_counterexample:
  "code (snd (app (quiet_env 3000000) (get_rq [''snapshot'', ''s''])
               (run [(quiet_env 1000000, snapshot_rq ''s'' [1]),
                     (quiet_env 2000000, snapshot_rq ''s'' [2])] empty_world))) = 405
   \<and> held (run [(quiet_env 1000000, snapshot_rq ''.h'' [1]),
                 (quiet_env 2000000, snapshot_rq ''.h'' [2])] empty_world) ''.h.jpg'' = [2]
   \<and> app (quiet_env 3000000) (get_rq [''snapshot'', ''latest''])
        (run [(quiet_env 1000000, snapshot_rq ''.h'' [1]),
              (quiet_env 2000000, snapshot_rq ''.h'' [2])] empty_world)
       = (run [(quiet_env 1000000, snapshot_rq ''.h'' [1]),
               (quiet_env 2000000, snapshot_rq ''.h'' [2])] empty_world,
          jsonify 404 [(''ok'', JBool False), (''error'', JStr ''no snapshot'')])"
  by (simp add: app_def get_rq_def snapshot_rq_def route_def only_def handle_def snapshot_def
      open_wb_write_def session_path_def empty_world_def quiet_env_def held_def
      snapshot_latest_def glob_star_def ishidden_def endswith_def py_sorted_reverse_def
      jsonify_def Let_def)

section \<open>Runs: what is appended to and what is renamed\<close>








lemma session_path_inject: "session_path a ext = session_path b ext \<longleftrightarrow> a = b"
  by (simp add: session_path_def)























section \<open>Serving a named file\<close>

lemma split_slash_plain: "CHR ''/'' \<notin> set n \<Longrightarrow> split_slash n = [n]"
  by (induction n) auto

lemma walk_down:
  "\<forall>name\<in>set (map fst sur). proper name \<Longrightarrow>
     walk (rebuild n sur) up (rev (map fst sur) @ cs) = walk n (parents n sur @ up) cs"
proof (induction sur arbitrary: n cs)
  case Nil
  show ?case by simp
next
  case (Cons x sur)
  obtain name siblings where x: "x = (name, siblings)" by (cases x)
  have p: "proper name" using Cons.prems by (simp add: x)
  have "walk (rebuild n (x # sur)) up (rev (map fst (x # sur)) @ cs)
          = walk (rebuild (Dir ((name, n) # siblings)) sur) up (rev (map fst sur) @ (name # cs))"
    by (simp add: x)
  also have "\<dots> = walk (Dir ((name, n) # siblings)) (parents (Dir ((name, n) # siblings)) sur @ up)
                      (name # cs)"
    using Cons.prems by (intro Cons.IH) simp
  also have "\<dots> = walk n (parents n (x # sur) @ up) cs"
    using p by (simp add: x proper_def)
  finally show ?case .
qed

lemma walk_video_dir:
  assumes "\<forall>name\<in>set (VIDEO_DIR w). proper name"
  shows "walk (root_of w) [] (VIDEO_DIR w @ cs)
           = walk (video_dir_node w) (parents (video_dir_node w) (surroundings w)) cs"
  using walk_down [of "surroundings w" "video_dir_node w" "[]" cs] assms
  by (simp add: root_of_def VIDEO_DIR_def)

lemma map_of_video_dir_node:
  "map_of (map (\<lambda>(n, a). (n, File a)) al) n = map_option File (map_of al n)"
  by (induction al) auto

lemma serve_video_plain:
  assumes wf: "\<forall>name\<in>set (VIDEO_DIR w). proper name" and n: "proper n"
  shows "serve_video w n
           = (case map_of (files w) n of
                None \<Rightarrow> jsonify 404 [(''ok'', JBool False), (''error'', JStr ''not found'')]
              | Some a \<Rightarrow>
                  \<lparr>code = 200, payload = File_sent n (content a),
                   headers = [(''Access-Control-Allow-Origin'', ''*''),
                              (''Cache-Control'', ''no-store'')]\<rparr>)"
proof -
  have ns: "take 1 n \<noteq> ''/''"
    using n by (cases n) (auto simp: proper_def)
  have j: "os_path_join (VIDEO_DIR w) n = VIDEO_DIR w @ [n]"
    using n ns by (simp add: os_path_join_def split_slash_plain proper_def)
  have "walk (root_of w) [] (VIDEO_DIR w @ [n]) = map_option File (map_of (files w) n)"
    using n by (simp add: walk_video_dir [OF wf] video_dir_node_def proper_def
        map_of_video_dir_node split: option.splits)
  then show ?thesis
    by (simp add: serve_video_def j split: option.splits)
qed

lemma serve_video_parent:
  assumes wf: "\<forall>name\<in>set (VIDEO_DIR w). proper name" and n: "proper n"
    and sur: "surroundings w = (name, siblings) # outer"
    and f: "map_of ((name, video_dir_node w) # siblings) n = Some (File f)"
  shows "serve_video w (''../'' @ n)
           = \<lparr>code = 200, payload = File_sent (''../'' @ n) (content f),
              headers = [(''Access-Control-Allow-Origin'', ''*''),
                         (''Cache-Control'', ''no-store'')]\<rparr>"
proof -
  have j: "os_path_join (VIDEO_DIR w) (''../'' @ n) = VIDEO_DIR w @ [''..'', n]"
    using n by (simp add: os_path_join_def split_slash_plain proper_def)
  have "walk (root_of w) [] (VIDEO_DIR w @ [''..'', n]) = Some (File f)"
    using n f by (simp add: walk_video_dir [OF wf] sur video_dir_node_def proper_def)
  then show ?thesis
    unfolding serve_video_def j Let_def by simp
qed

text \<open>
  What \<^verbatim>\<open>GET /video/<path:filename>\<close> does where the joined path is missing or a regular
  file: it answers 404 exactly when nothing exists at the path that joins the storage
  directory with the file name, and streams the file when a regular file exists
  there. For the name of a directory entry it serves the entry of the storage directory
  with that name, or answers 404 when there is none. The file name may hold separators
  and parent components: \<^verbatim>\<open>../n\<close> serves the regular file \<open>n\<close> that stands beside the
  storage directory, so the file served is not confined to the storage directory.
\<close>

lemma serve_video_exists_or_not_found:
  "(code (serve_video w fname) = 404
      \<longleftrightarrow> walk (root_of w) [] (os_path_join (VIDEO_DIR w) fname) = None)
   \<and> (\<forall>f. walk (root_of w) [] (os_path_join (VIDEO_DIR w) fname) = Some (File f) \<longrightarrow>
          serve_video w fname
            = \<lparr>code = 200, payload = File_sent fname (content f),
               headers = [(''Access-Control-Allow-Origin'', ''*''),
                          (''Cache-Control'', ''no-store'')]\<rparr>)
   \<and> ((\<forall>name\<in>set (VIDEO_DIR w). proper name) \<and> proper n \<longrightarrow>
        serve_video w n
          = (case map_of (files w) n of
               None \<Rightarrow> jsonify 404 [(''ok'', JBool False), (''error'', JStr ''not found'')]
             | Some a \<Rightarrow>
                 \<lparr>code = 200, payload = File_sent n (content a),
                  headers = [(''Access-Control-Allow-Origin'', ''*''),
                             (''Cache-Control'', ''no-store'')]\<rparr>))
   \<and> ((\<forall>name\<in>set (VIDEO_DIR w). proper name) \<and> proper n
        \<and> surroundings w = (name, siblings) # outer
        \<and> map_of ((name, video_dir_node w) # siblings) n = Some (File g) \<longrightarrow>
        serve_video w (''../'' @ n)
          = \<lparr>code = 200, payload = File_sent (''../'' @ n) (content g),
             headers = [(''Access-Control-Allow-Origin'', ''*''),
                        (''Cache-Control'', ''no-store'')]\<rparr>)"
proof (intro conjI allI impI)
  show "code (serve_video w fname) = 404
      \<longleftrightarrow> walk (root_of w) [] (os_path_join (VIDEO_DIR w) fname) = None"
    by (simp add: serve_video_def jsonify_def server_error_def split: option.splits node.splits)
  show "serve_video w fname
            = \<lparr>code = 200, payload = File_sent fname (content f),
               headers = [(''Access-Control-Allow-Origin'', ''*''),
                          (''Cache-Control'', ''no-store'')]\<rparr>"
    if "walk (root_of w) [] (os_path_join (VIDEO_DIR w) fname) = Some (File f)" for f
    using that by (simp add: serve_video_def)
  show "serve_video w n
          = (case map_of (files w) n of
               None \<Rightarrow> jsonify 404 [(''ok'', JBool False), (''error'', JStr ''not found'')]
             | Some a \<Rightarrow>
                 \<lparr>code = 200, payload = File_sent n (content a),
                  headers = [(''Access-Control-Allow-Origin'', ''*''),
                             (''Cache-Control'', ''no-store'')]\<rparr>)"
    if "(\<forall>name\<in>set (VIDEO_DIR w). proper name) \<and> proper n"
    using that by (intro serve_video_plain) simp_all
  show "serve_video w (''../'' @ n)
          = \<lparr>code = 200, payload = File_sent (''../'' @ n) (content g),
             headers = [(''Access-Control-Allow-Origin'', ''*''),
                        (''Cache-Control'', ''no-store'')]\<rparr>"
    if "(\<forall>name\<in>set (VIDEO_DIR w). proper name) \<and> proper n
        \<and> surroundings w = (name, siblings) # outer
        \<and> map_of ((name, video_dir_node w) # siblings) n = Some (File g)"
    using that by (intro serve_video_parent [of w n name siblings outer g]) simp_all
qed

lemma serve_video_at_deployed:
  "VIDEO_DIR deployed = [''srv'', ''videos'']
   \<and> proper ''srv'' \<and> proper ''videos''
   \<and> proper ''fuck.py''
   \<and> serve_video deployed ''../fuck.py''
       = \<lparr>code = 200, payload = File_sent ''../fuck.py'' [35, 33],
          headers = [(''Access-Control-Allow-Origin'', ''*''), (''Cache-Control'', ''no-store'')]\<rparr>
   \<and> serve_video deployed ''a.webm''
       = \<lparr>code = 200, payload = File_sent ''a.webm'' [1],
          headers = [(''Access-Control-Allow-Origin'', ''*''), (''Cache-Control'', ''no-store'')]\<rparr>
   \<and> code (serve_video deployed ''b.webm'') = 404"
proof -
  have wf: "\<forall>name\<in>set (VIDEO_DIR deployed). proper name"
    by (simp add: VIDEO_DIR_def deployed_def proper_def)
  have p1: "proper ''fuck.py''" and p2: "proper ''a.webm''" and p3: "proper ''b.webm''"
    by (simp_all add: proper_def)
  have sur: "surroundings deployed
      = (''videos'', [(''fuck.py'', File \<lparr>content = [35, 33], mtime = 5\<rparr>)]) # [(''srv'', [])]"
    by (simp add: deployed_def)
  have g: "map_of ((''videos'', video_dir_node deployed)
                   # [(''fuck.py'', File \<lparr>content = [35, 33], mtime = 5\<rparr>)]) ''fuck.py''
             = Some (File \<lparr>content = [35, 33], mtime = 5\<rparr>)"
    by simp
  have a: "serve_video deployed ''../fuck.py''
       = \<lparr>code = 200, payload = File_sent ''../fuck.py'' [35, 33],
          headers = [(''Access-Control-Allow-Origin'', ''*''), (''Cache-Control'', ''no-store'')]\<rparr>"
    using serve_video_exists_or_not_found [of deployed "''x''" "''fuck.py''" "''videos''"
        "[(''fuck.py'', File \<lparr>content = [35, 33], mtime = 5\<rparr>)]" "[(''srv'', [])]"
        "\<lparr>content = [35, 33], mtime = 5\<rparr>"] wf p1 sur g
    by simp
  have b: "serve_video deployed ''a.webm''
       = \<lparr>code = 200, payload = File_sent ''a.webm'' [1],
          headers = [(''Access-Control-Allow-Origin'', ''*''), (''Cache-Control'', ''no-store'')]\<rparr>"
    using serve_video_exists_or_not_found [of deployed "''x''" "''a.webm''"] wf p2
    by (simp add: deployed_def)
  have c: "code (serve_video deployed ''b.webm'') = 404"
    using serve_video_exists_or_not_found [of deployed "''x''" "''b.webm''"] wf p3
    by (simp add: deployed_def jsonify_def)
  have v: "VIDEO_DIR deployed = [''srv'', ''videos'']"
    by (simp add: VIDEO_DIR_def deployed_def)
  from wf v p1 a b c show ?thesis by simp
qed

text \<open>
  C10. \<^verbatim>\<open>GET /video/<path:filename>\<close> is to answer 404 exactly when no file exists at the
  path that joins the storage directory with the file name, and to stream the file
  otherwise. The code misses the case of a directory: for the file name \<^verbatim>\<open>.\<close> the
  joined path is the storage directory itself and for \<^verbatim>\<open>..\<close> its parent; no file
  exists there, yet \<^verbatim>\<open>os.path.exists\<close> holds, \<^verbatim>\<open>send_file\<close> cannot open the directory, and
  the request is answered neither 404 nor with a stream but with a server error.
\<close>

theorem serve_video_directory_not_404:
  "walk (root_of deployed) [] (os_path_join (VIDEO_DIR deployed) ''.'')
     = Some (video_dir_node deployed)
   \<and> video_dir_node deployed = Dir [(''a.webm'', File \<lparr>content = [1], mtime = 1000000\<rparr>)]
   \<and> serve_video deployed ''.'' = server_error
   \<and> code (serve_video deployed ''.'') = 500
   \<and> serve_video deployed ''..'' = server_error"
  by (simp add: serve_video_def os_path_join_def VIDEO_DIR_def root_of_def video_dir_node_def
      deployed_def server_error_def)

end
